theory Spec2Isabelle
  imports Complex_Main "HOL-Library.Sublist" "HOL-Library.AList" "HOL-Library.Multiset"
begin

section \<open>Copy Parameter (script.py): a shallow embedding\<close>

text \<open>
  The script copies parameter values by name from one source element to picked target
  elements of a host document. Its helpers are embedded function by function, under their
  own names. The host object model (elements, parameters, typed accessors, the document) is
  not part of the script; it is modelled below as data plus a small record of host
  behaviours that the script cannot see into.
\<close>

subsection \<open>Strings\<close>

text \<open>
  A script string is a \<^typ>\<open>string\<close>; a character is read as its code point, below 256.
  \<^verbatim>\<open>strip()\<close> removes the white space of that range from both ends and \<^verbatim>\<open>lower()\<close> maps
  the upper-case letters of that range to their lower-case partners.
\<close>

definition is_space :: "char \<Rightarrow> bool" where
  "is_space c =
     (let n = (of_char c :: nat)
      in (9 \<le> n \<and> n \<le> 13) \<or> (28 \<le> n \<and> n \<le> 32) \<or> n = 133 \<or> n = 160)"

definition lower_char :: "char \<Rightarrow> char" where
  "lower_char c =
     (let n = (of_char c :: nat)
      in if (65 \<le> n \<and> n \<le> 90) \<or> (192 \<le> n \<and> n \<le> 222 \<and> n \<noteq> 215)
         then char_of (n + 32) else c)"

definition lower :: "string \<Rightarrow> string" where
  "lower s = map lower_char s"

definition strip :: "string \<Rightarrow> string" where
  "strip s = rev (dropWhile is_space (rev (dropWhile is_space s)))"

subsection \<open>Configuration and name helpers\<close>

definition BLOCKED_NAMES :: "string list" where
  "BLOCKED_NAMES = [''Bauteilebene'', ''Arbeitsebene'']"

text \<open>\<^verbatim>\<open>_clean(s)\<close>: \<^verbatim>\<open>(s or u"").strip()\<close>; a missing name is the empty string.\<close>

definition clean :: "string option \<Rightarrow> string" where
  "clean s = strip (case s of None \<Rightarrow> [] | Some t \<Rightarrow> t)"

text \<open>\<^verbatim>\<open>_is_blocked(name)\<close>: the loop over \<^verbatim>\<open>BLOCKED_NAMES\<close>, returning at the first match.\<close>

fun blocked_loop :: "string \<Rightarrow> string list \<Rightarrow> bool" where
  "blocked_loop n [] = False"
| "blocked_loop n (b # bs) = (if n = lower (clean (Some b)) then True else blocked_loop n bs)"

definition is_blocked :: "string \<Rightarrow> bool" where
  "is_blocked name = blocked_loop (lower (clean (Some name))) BLOCKED_NAMES"

subsection \<open>The host object model\<close>

datatype storage_type = StDouble | StInteger | StString | StElementId | StNone

text \<open>A value as the script holds it: \<^verbatim>\<open>None\<close>, a float, an int, a string or an element id.\<close>

datatype pvalue = PyNone | PyFloat real | PyInt int | PyStr string | PyElementId int

record definition_obj =
  Name :: "string option"

text \<open>
  Modelled from the spec: the parameter-storage collaborator (``read Name, StorageType,
  IsReadOnly; typed get/set''). A parameter carries one slot per typed accessor;
  \<^verbatim>\<open>p.Definition\<close> may be absent, in which case \<^verbatim>\<open>p.Definition.Name\<close> raises.
\<close>

record parameter =
  Definition :: "definition_obj option"
  StorageType :: storage_type
  IsReadOnly :: bool
  AsDouble :: real
  AsInteger :: int
  AsString :: "string option"
  AsElementId :: int

text \<open>
  An element has an identity and a parameter collection; \<open>params_fault\<close> says that
  enumerating \<^verbatim>\<open>elem.Parameters\<close> raises.
\<close>

record element =
  ElemId :: int
  Parameters :: "parameter list"
  params_fault :: bool

type_synonym document = "element list"

text \<open>
  Modelled from the spec: the document collaborator (``resolve an element by id (returns
  nothing if absent), provide a designated invalid id sentinel value'').
\<close>

definition GetElement :: "document \<Rightarrow> int \<Rightarrow> element option" where
  "GetElement doc i = find (\<lambda>e. ElemId e = i) doc"

definition InvalidElementId :: int where
  "InvalidElementId = - 1"

text \<open>
  What the script cannot decide about the host is a parameter of the model: how
  \<^verbatim>\<open>LookupParameter\<close> compares names, and on which parameters a typed read or a
  \<^verbatim>\<open>Set\<close> raises, with the message of the exception.
\<close>

record host =
  name_match :: "string \<Rightarrow> string \<Rightarrow> bool"
  read_fault :: "parameter \<Rightarrow> string option"
  write_fault :: "parameter \<Rightarrow> pvalue \<Rightarrow> string option"

text \<open>
  Modelled from the spec: \<^verbatim>\<open>LookupParameter\<close>, ``host-provided name-based lookup'': the
  first parameter of the element whose name the host matches with the given one. The
  result splits the collection around the parameter found, so that a write can put the
  new parameter back in place.
\<close>

definition has_name :: "host \<Rightarrow> string \<Rightarrow> parameter \<Rightarrow> bool" where
  "has_name h pname p =
     (case Definition p of None \<Rightarrow> False
      | Some d \<Rightarrow> (case Name d of None \<Rightarrow> False | Some n \<Rightarrow> name_match h pname n))"

definition LookupParameter ::
  "host \<Rightarrow> element \<Rightarrow> string \<Rightarrow> (parameter list \<times> parameter \<times> parameter list) option" where
  "LookupParameter h e pname = List.extract (has_name h pname) (Parameters e)"

text \<open>
  Modelled from the spec: the typed \<^verbatim>\<open>Set\<close>. It raises where the host refuses the write
  and on a null argument; otherwise it stores the value in the slot of the value's type
  and changes nothing else. A \<^verbatim>\<open>Set\<close> that raises has written nothing.
\<close>

definition host_Set :: "host \<Rightarrow> parameter \<Rightarrow> pvalue \<Rightarrow> string + parameter" where
  "host_Set h p v =
     (case write_fault h p v of
        Some msg \<Rightarrow> Inl msg
      | None \<Rightarrow>
          (case v of
             PyNone \<Rightarrow> Inl ''null value''
           | PyFloat d \<Rightarrow> Inr (p\<lparr>AsDouble := d\<rparr>)
           | PyInt i \<Rightarrow> Inr (p\<lparr>AsInteger := i\<rparr>)
           | PyStr s \<Rightarrow> Inr (p\<lparr>AsString := Some s\<rparr>)
           | PyElementId i \<Rightarrow> Inr (p\<lparr>AsElementId := i\<rparr>)))"

subsection \<open>Helpers of the script\<close>

fun storage_label :: "storage_type \<Rightarrow> string" where
  "storage_label StDouble = ''Double''"
| "storage_label StInteger = ''Integer''"
| "storage_label StString = ''String''"
| "storage_label StElementId = ''ElementId''"
| "storage_label StNone = ''None''"

text \<open>
  \<^verbatim>\<open>_param_names_lower(elem)\<close>. The inner \<^verbatim>\<open>try\<close> skips a parameter whose name cannot
  be read; the outer one returns what was collected when the enumeration raises.
\<close>

fun param_names_loop :: "parameter list \<Rightarrow> string set \<Rightarrow> string set" where
  "param_names_loop [] out = out"
| "param_names_loop (p # ps) out =
     (case Definition p of
        None \<Rightarrow> param_names_loop ps out
      | Some d \<Rightarrow>
          (let n = clean (Name d)
           in if n = [] \<or> is_blocked n then param_names_loop ps out
              else param_names_loop ps (insert (lower n) out)))"

definition param_names_lower :: "element \<Rightarrow> string set" where
  "param_names_lower elem =
     (if params_fault elem then {} else param_names_loop (Parameters elem) {})"

text \<open>
  \<^verbatim>\<open>_build_source_param_map(source)\<close>. The dictionary \<^verbatim>\<open>m\<close> is an association list;
  \<^verbatim>\<open>key in m\<close> is a lookup and \<^verbatim>\<open>m[key] = ...\<close> an update. A parameter whose name
  cannot be read is skipped by the \<^verbatim>\<open>except\<close>; when the enumeration raises, \<^verbatim>\<open>params\<close>
  is the empty list.
\<close>

record descriptor =
  name :: string
  display :: string

fun build_loop ::
  "parameter list \<Rightarrow> (string \<times> descriptor) list \<Rightarrow> (string \<times> descriptor) list" where
  "build_loop [] m = m"
| "build_loop (p # ps) m =
     (case Definition p of
        None \<Rightarrow> build_loop ps m
      | Some d \<Rightarrow>
          (let nm = clean (Name d)
           in if nm = [] \<or> is_blocked nm then build_loop ps m
              else
                (let key = lower nm
                 in if map_of m key \<noteq> None then build_loop ps m
                    else
                      (let ro = (if IsReadOnly p then ''RO'' else ''RW'');
                           st = storage_label (StorageType p);
                           disp = nm @ ''   ['' @ st @ '' | '' @ ro @ '']''
                       in build_loop ps (AList.update key \<lparr>name = nm, display = disp\<rparr> m)))))"

definition build_source_param_map :: "element \<Rightarrow> (string \<times> descriptor) list" where
  "build_source_param_map source =
     build_loop (if params_fault source then [] else Parameters source) []"

text \<open>
  \<^verbatim>\<open>_get_param_value(p)\<close>: the dispatch on the storage type. A typed accessor may raise
  (\<open>Inl\<close> the message); no accessor is called for an unknown storage type.
\<close>

definition host_read :: "host \<Rightarrow> parameter \<Rightarrow> pvalue \<Rightarrow> string + pvalue" where
  "host_read h p v = (case read_fault h p of Some msg \<Rightarrow> Inl msg | None \<Rightarrow> Inr v)"

definition get_param_value :: "host \<Rightarrow> parameter \<Rightarrow> string + pvalue" where
  "get_param_value h p =
     (case StorageType p of
        StDouble \<Rightarrow> host_read h p (PyFloat (AsDouble p))
      | StInteger \<Rightarrow> host_read h p (PyInt (AsInteger p))
      | StString \<Rightarrow>
          host_read h p (case AsString p of None \<Rightarrow> PyNone | Some s \<Rightarrow> PyStr s)
      | StElementId \<Rightarrow> host_read h p (PyElementId (AsElementId p))
      | StNone \<Rightarrow> Inr PyNone)"

text \<open>
  \<^verbatim>\<open>_set_param_value(p, value)\<close>: \<open>Inl\<close> when \<^verbatim>\<open>p.Set\<close> raises, otherwise the returned
  flag with the parameter as the call leaves it.
\<close>

definition written :: "string + parameter \<Rightarrow> string + (bool \<times> parameter)" where
  "written r = (case r of Inl msg \<Rightarrow> Inl msg | Inr p' \<Rightarrow> Inr (True, p'))"

definition set_param_value ::
  "host \<Rightarrow> parameter \<Rightarrow> pvalue \<Rightarrow> string + (bool \<times> parameter)" where
  "set_param_value h p v =
     (case StorageType p of
        StDouble \<Rightarrow> written (host_Set h p v)
      | StInteger \<Rightarrow> written (host_Set h p v)
      | StString \<Rightarrow> written (host_Set h p (if v \<noteq> PyNone then v else PyStr []))
      | StElementId \<Rightarrow> written (host_Set h p v)
      | StNone \<Rightarrow> Inr (False, p))"

text \<open>
  The guard on element ids in \<^verbatim>\<open>_try_copy_by_name\<close>:
  \<^verbatim>\<open>val and val != DB.ElementId.InvalidElementId\<close> and \<^verbatim>\<open>doc.GetElement(val) is None\<close>.
  An element id object is truthy; \<^verbatim>\<open>None\<close> is not.
\<close>

definition unresolved :: "document \<Rightarrow> pvalue \<Rightarrow> bool" where
  "unresolved doc v =
     (case v of
        PyElementId i \<Rightarrow> i \<noteq> InvalidElementId \<and> GetElement doc i = None
      | _ \<Rightarrow> False)"

text \<open>The body of the \<^verbatim>\<open>try\<close> block of \<^verbatim>\<open>_try_copy_by_name\<close>; \<open>Inl\<close> is a raised exception.\<close>

definition copy_body ::
  "host \<Rightarrow> document \<Rightarrow> parameter \<Rightarrow> parameter \<Rightarrow> string + ((bool \<times> string) \<times> parameter)" where
  "copy_body h doc sp tp =
     (case get_param_value h sp of
        Inl msg \<Rightarrow> Inl msg
      | Inr v \<Rightarrow>
          if StorageType sp = StElementId \<and> unresolved doc v
          then Inr ((False, ''elementid not in doc''), tp)
          else
            (case set_param_value h tp v of
               Inl msg \<Rightarrow> Inl msg
             | Inr (True, tp') \<Rightarrow> Inr ((True, []), tp')
             | Inr (False, tp') \<Rightarrow> Inr ((False, ''unsupported''), tp')))"

text \<open>
  \<^verbatim>\<open>_try_copy_by_name(src_elem, dst_elem, pname)\<close>. The result is the pair
  \<^verbatim>\<open>(ok, reason)\<close> together with the destination element as the call leaves it; the
  \<^verbatim>\<open>except\<close> clause turns a raised exception into \<^verbatim>\<open>(False, str(e))\<close>.
\<close>

definition try_copy_by_name ::
  "host \<Rightarrow> document \<Rightarrow> element \<Rightarrow> element \<Rightarrow> string \<Rightarrow> (bool \<times> string) \<times> element" where
  "try_copy_by_name h doc src_elem dst_elem pname0 =
     (let pname = clean (Some pname0)
      in if pname = [] \<or> is_blocked pname then ((False, ''blocked/empty''), dst_elem)
         else
           (case (LookupParameter h src_elem pname, LookupParameter h dst_elem pname) of
              (Some (sb, sp, sa), Some (tb, tp, ta)) \<Rightarrow>
                if IsReadOnly tp then ((False, ''read-only''), dst_elem)
                else if StorageType sp \<noteq> StorageType tp
                then ((False, ''type mismatch''), dst_elem)
                else
                  (case copy_body h doc sp tp of
                     Inl msg \<Rightarrow> ((False, msg), dst_elem)
                   | Inr (r, tp') \<Rightarrow> (r, dst_elem\<lparr>Parameters := tb @ tp' # ta\<rparr>))
            | _ \<Rightarrow> ((False, ''missing''), dst_elem)))"

subsection \<open>The script body\<close>

text \<open>
  The target picking loop (\<^verbatim>\<open>while True\<close>). Each turn of the loop gets one event from the
  host: a picked reference, or an exception raised in the body, given by its class name
  and its text. The loop returns only through an exception: \<open>Some (Inr ids)\<close> when the
  exception is a cancel, \<open>Some (Inl e)\<close> when it is raised again, and \<open>None\<close> while the
  events seen so far have not ended it.
\<close>

datatype pick_event = Picked int | Raised string string

definition is_cancel :: "string \<Rightarrow> string \<Rightarrow> bool" where
  "is_cancel cls msg =
     (cls = ''OperationCanceledException'' \<or>
      sublist ''aborted the pick operation'' (lower msg))"

fun pick_targets ::
  "document \<Rightarrow> element \<Rightarrow> pick_event list \<Rightarrow> int list \<Rightarrow> ((string \<times> string) + int list) option" where
  "pick_targets doc source [] target_ids = None"
| "pick_targets doc source (Picked r # evs) target_ids =
     (case GetElement doc r of
        None \<Rightarrow> pick_targets doc source evs target_ids
      | Some e \<Rightarrow>
          if ElemId e = ElemId source then pick_targets doc source evs target_ids
          else if ElemId e \<in> set target_ids
          then pick_targets doc source evs (remove1 (ElemId e) target_ids)
          else pick_targets doc source evs (target_ids @ [ElemId e]))"
| "pick_targets doc source (Raised cls msg # evs) target_ids =
     (if is_cancel cls msg then Some (Inr target_ids) else Some (Inl (cls, msg)))"

text \<open>
  The common parameter list: \<^verbatim>\<open>common_keys = set(src_map.keys())\<close>, intersected with the
  name set of every target that resolves.
\<close>

fun common_keys_loop :: "document \<Rightarrow> int list \<Rightarrow> string set \<Rightarrow> string set" where
  "common_keys_loop doc [] ck = ck"
| "common_keys_loop doc (tid # tids) ck =
     (case GetElement doc tid of
        None \<Rightarrow> common_keys_loop doc tids ck
      | Some tgt \<Rightarrow> common_keys_loop doc tids (ck \<inter> param_names_lower tgt))"

definition common_keys :: "document \<Rightarrow> element \<Rightarrow> int list \<Rightarrow> string set" where
  "common_keys doc source target_ids =
     common_keys_loop doc target_ids (set (map fst (build_source_param_map source)))"

text \<open>
  The apply phase. The counters and the sample list of the script are a record; a write
  through \<^verbatim>\<open>tgt\<close> changes the element the document holds under that id. The inner loop
  runs over \<^verbatim>\<open>picked_names\<close> for one target and carries the target as the writes leave it.
  The source is never among the targets (the picking loop drops it), so its parameters
  are the same in every call.
\<close>

record run_summary =
  elem_updated :: nat
  elem_skipped :: nat
  sets_ok :: nat
  sets_fail :: nat
  fail_samples :: "string list"

definition sampled_reasons :: "string list" where
  "sampled_reasons = [''missing'', ''read-only'', ''type mismatch'', ''elementid not in doc'']"

fun copy_names ::
  "host \<Rightarrow> document \<Rightarrow> element \<Rightarrow> string list \<Rightarrow> element \<times> bool \<times> run_summary
     \<Rightarrow> element \<times> bool \<times> run_summary" where
  "copy_names h doc source [] st = st"
| "copy_names h doc source (pname # rest) (tgt, ok_any, s) =
     (case try_copy_by_name h doc source tgt pname of
        ((ok, why), tgt') \<Rightarrow>
          if ok then copy_names h doc source rest (tgt', True, s\<lparr>sets_ok := sets_ok s + 1\<rparr>)
          else if why \<in> set sampled_reasons \<and> length (fail_samples s) < 10
          then copy_names h doc source rest
                 (tgt', ok_any,
                  s\<lparr>sets_fail := sets_fail s + 1,
                    fail_samples := fail_samples s @ [pname @ '' -> '' @ why]\<rparr>)
          else copy_names h doc source rest (tgt', ok_any, s\<lparr>sets_fail := sets_fail s + 1\<rparr>))"

definition doc_put :: "document \<Rightarrow> element \<Rightarrow> document" where
  "doc_put doc e' =
     (case List.extract (\<lambda>e. ElemId e = ElemId e') doc of
        None \<Rightarrow> doc
      | Some (before, e, after) \<Rightarrow> before @ e' # after)"

fun apply_loop ::
  "host \<Rightarrow> element \<Rightarrow> string list \<Rightarrow> int list \<Rightarrow> document \<times> run_summary
     \<Rightarrow> document \<times> run_summary" where
  "apply_loop h source picked_names [] st = st"
| "apply_loop h source picked_names (tid # tids) (doc, s) =
     (case GetElement doc tid of
        None \<Rightarrow>
          apply_loop h source picked_names tids (doc, s\<lparr>elem_skipped := elem_skipped s + 1\<rparr>)
      | Some tgt \<Rightarrow>
          (case copy_names h doc source picked_names (tgt, False, s) of
             (tgt', ok_any, s') \<Rightarrow>
               apply_loop h source picked_names tids
                 (doc_put doc tgt',
                  if ok_any then s'\<lparr>elem_updated := elem_updated s' + 1\<rparr>
                  else s'\<lparr>elem_skipped := elem_skipped s' + 1\<rparr>)))"

definition apply_copy ::
  "host \<Rightarrow> document \<Rightarrow> element \<Rightarrow> int list \<Rightarrow> string list \<Rightarrow> document \<times> run_summary" where
  "apply_copy h doc source target_ids picked_names =
     apply_loop h source picked_names target_ids
       (doc, \<lparr>elem_updated = 0, elem_skipped = 0, sets_ok = 0, sets_fail = 0,
              fail_samples = []\<rparr>)"

subsection \<open>Reference descriptions used in the statements\<close>

text \<open>
  What one parameter contributes to the source catalogue when its key is new: nothing
  when its name cannot be read, is empty or is blocked, otherwise the key and the
  descriptor.
\<close>

definition entry_of :: "parameter \<Rightarrow> (string \<times> descriptor) option" where
  "entry_of p =
     (case Definition p of
        None \<Rightarrow> None
      | Some d \<Rightarrow>
          (let nm = clean (Name d)
           in if nm = [] \<or> is_blocked nm then None
              else Some (lower nm,
                     \<lparr>name = nm,
                      display = nm @ ''   ['' @ storage_label (StorageType p) @ '' | '' @
                                (if IsReadOnly p then ''RO'' else ''RW'') @ '']''\<rparr>)))"

text \<open>
  Reading a parameter by name off an element, as \<^verbatim>\<open>_try_copy_by_name\<close> does for its
  source: the lookup under the cleaned name, then \<^verbatim>\<open>_get_param_value\<close>.
\<close>

definition read_named :: "host \<Rightarrow> element \<Rightarrow> string \<Rightarrow> (string + pvalue) option" where
  "read_named h e pname =
     (case LookupParameter h e (clean (Some pname)) of
        None \<Rightarrow> None
      | Some (before, p, after) \<Rightarrow> Some (get_param_value h p))"

text \<open>
  The calls of \<^verbatim>\<open>_try_copy_by_name\<close> that the apply phase makes, in order: for one target
  the list of \<^verbatim>\<open>(pname, ok, why)\<close>, and for the run the list of the targets that
  resolve, each as it is when its turn comes, with its calls.
\<close>

fun field_results ::
  "host \<Rightarrow> document \<Rightarrow> element \<Rightarrow> element \<Rightarrow> string list \<Rightarrow> (string \<times> bool \<times> string) list" where
  "field_results h doc source tgt [] = []"
| "field_results h doc source tgt (pname # rest) =
     (case try_copy_by_name h doc source tgt pname of
        ((ok, why), tgt') \<Rightarrow> (pname, ok, why) # field_results h doc source tgt' rest)"

fun elem_after :: "host \<Rightarrow> document \<Rightarrow> element \<Rightarrow> element \<Rightarrow> string list \<Rightarrow> element" where
  "elem_after h doc source tgt [] = tgt"
| "elem_after h doc source tgt (pname # rest) =
     elem_after h doc source (snd (try_copy_by_name h doc source tgt pname)) rest"

fun run_results ::
  "host \<Rightarrow> element \<Rightarrow> string list \<Rightarrow> document \<Rightarrow> int list
     \<Rightarrow> (element \<times> (string \<times> bool \<times> string) list) list" where
  "run_results h source picked_names doc [] = []"
| "run_results h source picked_names doc (tid # tids) =
     (case GetElement doc tid of
        None \<Rightarrow> run_results h source picked_names doc tids
      | Some tgt \<Rightarrow>
          (tgt, field_results h doc source tgt picked_names) #
          run_results h source picked_names
            (doc_put doc (elem_after h doc source tgt picked_names)) tids)"

text \<open>All calls of a run, in order.\<close>

definition run_calls ::
  "host \<Rightarrow> element \<Rightarrow> string list \<Rightarrow> document \<Rightarrow> int list \<Rightarrow> (string \<times> bool \<times> string) list" where
  "run_calls h source picked_names doc target_ids =
     concat (map snd (run_results h source picked_names doc target_ids))"

text \<open>
  Reading a call \<^verbatim>\<open>(pname, ok, why)\<close>: whether it succeeded, whether the apply phase
  takes it as a sample (the test \<^verbatim>\<open>why in (...)\<close> of the \<^verbatim>\<open>else\<close> branch), and the
  line \<^verbatim>\<open>u"{} -> {}".format(pname, why)\<close> it is reported as.
\<close>

definition ok_of :: "string \<times> bool \<times> string \<Rightarrow> bool" where
  "ok_of r = fst (snd r)"

definition sampled :: "string \<times> bool \<times> string \<Rightarrow> bool" where
  "sampled r = (\<not> fst (snd r) \<and> snd (snd r) \<in> set sampled_reasons)"

definition sample_line :: "string \<times> bool \<times> string \<Rightarrow> string" where
  "sample_line r = fst r @ '' -> '' @ snd (snd r)"

subsection \<open>Example data\<close>

text \<open>
  The scenario of the specification: the source has \<^verbatim>\<open>Comments = "A"\<close> and
  \<^verbatim>\<open>Arbeitsebene = "L1"\<close>; the target has \<^verbatim>\<open>Comments = ""\<close>, a blocked parameter
  and \<^verbatim>\<open>Mark = "X"\<close>. The example host matches names exactly and never raises.
\<close>

definition string_param :: "string \<Rightarrow> bool \<Rightarrow> string option \<Rightarrow> parameter" where
  "string_param n ro v =
     \<lparr>Definition = Some \<lparr>Name = Some n\<rparr>, StorageType = StString, IsReadOnly = ro,
      AsDouble = 0, AsInteger = 0, AsString = v, AsElementId = - 1\<rparr>"

definition number_param :: "string \<Rightarrow> storage_type \<Rightarrow> bool \<Rightarrow> real \<Rightarrow> int \<Rightarrow> parameter" where
  "number_param n st ro d i =
     \<lparr>Definition = Some \<lparr>Name = Some n\<rparr>, StorageType = st, IsReadOnly = ro,
      AsDouble = d, AsInteger = i, AsString = None, AsElementId = - 1\<rparr>"

definition ex_source :: element where
  "ex_source =
     \<lparr>ElemId = 1,
      Parameters = [string_param ''Comments'' False (Some ''A''),
                    string_param ''Arbeitsebene'' False (Some ''L1'')],
      params_fault = False\<rparr>"

definition ex_target :: element where
  "ex_target =
     \<lparr>ElemId = 2,
      Parameters = [string_param ''Comments'' False (Some []),
                    string_param '' ARBEITSEBENE '' False (Some ''L2''),
                    string_param ''Mark'' False (Some ''X'')],
      params_fault = False\<rparr>"

definition ex_host :: host where
  "ex_host = \<lparr>name_match = (=), read_fault = (\<lambda>p. None), write_fault = (\<lambda>p v. None)\<rparr>"

text \<open>
  Further examples: a \<^verbatim>\<open>Width\<close> that is a Double on the source and an Integer on the
  targets (writable on one, read-only on the other), a source whose \<^verbatim>\<open>Comments\<close> has no
  value, a second target, and two hosts whose \<^verbatim>\<open>Set\<close> always raises.
\<close>

definition ex_width_source :: element where
  "ex_width_source =
     \<lparr>ElemId = 10, Parameters = [number_param ''Width'' StDouble False 2 0],
      params_fault = False\<rparr>"

definition ex_width_target :: element where
  "ex_width_target =
     \<lparr>ElemId = 11, Parameters = [number_param ''Width'' StInteger False 0 3],
      params_fault = False\<rparr>"

definition ex_width_readonly :: element where
  "ex_width_readonly =
     \<lparr>ElemId = 12, Parameters = [number_param ''Width'' StInteger True 0 3],
      params_fault = False\<rparr>"

definition ex_unset_source :: element where
  "ex_unset_source =
     \<lparr>ElemId = 20, Parameters = [string_param ''Comments'' False None], params_fault = False\<rparr>"

definition ex_target2 :: element where
  "ex_target2 =
     \<lparr>ElemId = 3,
      Parameters = [string_param ''COMMENTS'' True (Some ''B''),
                    string_param ''Comments'' False (Some ''C'')],
      params_fault = False\<rparr>"

definition ex_doc :: document where
  "ex_doc = [ex_source, ex_target, ex_target2]"

definition ex_refusing_host :: host where
  "ex_refusing_host =
     \<lparr>name_match = (=), read_fault = (\<lambda>p. None),
      write_fault = (\<lambda>p v. Some ''The parameter cannot be set.'')\<rparr>"

definition ex_terse_host :: host where
  "ex_terse_host =
     \<lparr>name_match = (=), read_fault = (\<lambda>p. None), write_fault = (\<lambda>p v. Some ''read-only'')\<rparr>"

section \<open>Properties\<close>

subsection \<open>Strings and blocking\<close>

lemma lower_char_idem: "lower_char (lower_char c) = lower_char c"
  by (auto simp: lower_char_def Let_def)

lemma is_space_lower_char: "is_space (lower_char c) = is_space c"
  by (auto simp: lower_char_def is_space_def Let_def)

lemma lower_idem: "lower (lower s) = lower s"
  by (simp add: lower_def lower_char_idem)

lemma lower_Nil_iff: "lower s = [] \<longleftrightarrow> s = []"
  by (simp add: lower_def)

lemma dropWhile_space_lower:
  "dropWhile is_space (map lower_char s) = map lower_char (dropWhile is_space s)"
  by (induction s) (simp_all add: is_space_lower_char)

lemma strip_lower: "strip (lower s) = lower (strip s)"
  by (simp add: strip_def lower_def dropWhile_space_lower rev_map)

lemma dropWhile_fix_iff: "dropWhile P xs = xs \<longleftrightarrow> (xs = [] \<or> \<not> P (hd xs))"
  by (cases xs) (auto dest: dropWhile_eq_Cons_conv[THEN iffD1])

lemma rtrim_keeps_head:
  assumes "dropWhile P xs = xs"
  shows "dropWhile P (rev (dropWhile P (rev xs))) = rev (dropWhile P (rev xs))"
proof -
  let ?t = "dropWhile P (rev xs)"
  have "rev xs = takeWhile P (rev xs) @ ?t" by simp
  then have xs: "xs = rev ?t @ rev (takeWhile P (rev xs))"
    by (metis rev_append rev_rev_ident)
  show ?thesis
  proof (cases "rev ?t")
    case Nil
    then have t: "?t = []" by (simp only: rev_is_Nil_conv)
    show ?thesis unfolding t by simp
  next
    case (Cons y ys)
    with xs have "hd xs = y" "xs \<noteq> []" by (metis append_Cons list.sel(1), auto)
    with assms have "\<not> P y" by (simp add: dropWhile_fix_iff)
    with Cons show ?thesis by simp
  qed
qed

lemma strip_idem: "strip (strip s) = strip s"
  unfolding strip_def using rtrim_keeps_head[of is_space "dropWhile is_space s"]
  by simp

lemma is_blocked_lower: "is_blocked (lower n) = is_blocked n"
  by (simp add: is_blocked_def clean_def strip_lower lower_idem)

lemma blocked_loop_iff: "blocked_loop n bs \<longleftrightarrow> (\<exists>b\<in>set bs. n = lower (strip b))"
  by (induction bs) (auto simp: clean_def)

lemma is_blocked_iff:
  "is_blocked n \<longleftrightarrow> (\<exists>b\<in>set BLOCKED_NAMES. lower (strip n) = lower (strip b))"
  by (simp add: is_blocked_def blocked_loop_iff clean_def)

lemma param_names_loop_inv:
  "x \<in> param_names_loop ps out \<Longrightarrow> x \<in> out \<or> (x \<noteq> [] \<and> \<not> is_blocked x)"
proof (induction ps arbitrary: out)
  case Nil
  then show ?case by simp
next
  case (Cons p ps)
  show ?case
  proof (cases "Definition p")
    case None
    with Cons show ?thesis by simp
  next
    case (Some d)
    let ?n = "clean (Name d)"
    show ?thesis
    proof (cases "?n = [] \<or> is_blocked ?n")
      case True
      with Cons Some show ?thesis by (simp add: Let_def)
    next
      case False
      with Cons.prems Some have "x \<in> param_names_loop ps (insert (lower ?n) out)"
        by (simp add: Let_def)
      from Cons.IH[OF this] False show ?thesis
        by (auto simp: lower_Nil_iff is_blocked_lower)
    qed
  qed
qed

subsection \<open>The target name set\<close>

text \<open>
  C4. For every element, a name in the set returned by \<^verbatim>\<open>_param_names_lower\<close> is not
  empty and is not blocked: trimmed and lower-cased, it differs from every entry of
  \<^verbatim>\<open>BLOCKED_NAMES\<close> trimmed and lower-cased, whatever parameters the host enumerates.
\<close>

theorem param_names_lower_excludes_blocked:
  "n \<in> param_names_lower elem \<Longrightarrow>
     n \<noteq> [] \<and> \<not> is_blocked n \<and> (\<forall>b\<in>set BLOCKED_NAMES. lower (strip n) \<noteq> lower (strip b))"
  using param_names_loop_inv[of n "Parameters elem" "{}"]
  by (auto simp: param_names_lower_def is_blocked_iff split: if_splits)

text \<open>
  The target of the example reports a blocked parameter in another case and with
  blanks around it; the name set leaves it out and keeps \<^verbatim>\<open>comments\<close>.
\<close>

theorem param_names_lower_excludes_blocked_witness:
  "''comments'' \<in> param_names_lower ex_target \<and> \<not> is_blocked ''comments'' \<and>
   is_blocked '' ARBEITSEBENE '' \<and> ''arbeitsebene'' \<notin> param_names_lower ex_target"
proof -
  have h: "''comments'' \<in> param_names_lower ex_target" by code_simp
  have b: "is_blocked '' ARBEITSEBENE ''" by code_simp
  have "is_blocked ''arbeitsebene''" by code_simp
  with param_names_lower_excludes_blocked[of "''arbeitsebene''" ex_target]
  have "''arbeitsebene'' \<notin> param_names_lower ex_target" by blast
  with param_names_lower_excludes_blocked[OF h] h b show ?thesis by blast
qed

subsection \<open>The per-field copy\<close>

lemma written_False: "written r = Inr (False, p') \<Longrightarrow> False"
  by (auto simp: written_def split: sum.splits)

lemma set_param_value_False:
  "set_param_value h p v = Inr (False, p') \<Longrightarrow> p' = p \<and> StorageType p = StNone"
  by (auto simp: set_param_value_def split: storage_type.splits dest: written_False)

lemma copy_body_False:
  "copy_body h doc sp tp = Inr ((False, why), tp') \<Longrightarrow> tp' = tp"
  by (auto simp: copy_body_def split: sum.splits if_splits bool.splits
      dest: set_param_value_False)

lemma LookupParameter_Some:
  "LookupParameter h e pn = Some (b, p, a) \<Longrightarrow> Parameters e = b @ p # a \<and> has_name h pn p"
  by (auto simp: LookupParameter_def dest: extract_SomeE)

text \<open>
  C1. Whenever \<^verbatim>\<open>_try_copy_by_name\<close> returns \<^verbatim>\<open>ok = False\<close>, for whatever reason
  (blocked or empty name, missing parameter, read-only target, type mismatch, unresolved
  element id, unsupported storage type, or an exception caught by the \<^verbatim>\<open>except\<close>
  clause), the destination element is as it was before the call.
\<close>

theorem try_copy_by_name_failure_no_write:
  "try_copy_by_name h doc src_elem dst_elem pname = ((False, why), dst') \<Longrightarrow> dst' = dst_elem"
  by (auto simp: try_copy_by_name_def Let_def
      split: if_splits option.splits sum.splits prod.splits
      dest!: LookupParameter_Some copy_body_False)

text \<open>
  Two failing calls on the example: a host that refuses the write (the exception is
  caught), and a name the source does not have.
\<close>

theorem try_copy_by_name_failure_no_write_witness:
  "fst (try_copy_by_name ex_refusing_host ex_doc ex_source ex_target ''Comments'') =
     (False, ''The parameter cannot be set.'') \<and>
   snd (try_copy_by_name ex_refusing_host ex_doc ex_source ex_target ''Comments'') = ex_target \<and>
   fst (try_copy_by_name ex_host ex_doc ex_source ex_target ''Mark'') = (False, ''missing'') \<and>
   snd (try_copy_by_name ex_host ex_doc ex_source ex_target ''Mark'') = ex_target"
proof -
  let ?r = "try_copy_by_name ex_refusing_host ex_doc ex_source ex_target ''Comments''"
  let ?m = "try_copy_by_name ex_host ex_doc ex_source ex_target ''Mark''"
  have r: "fst ?r = (False, ''The parameter cannot be set.'')" by code_simp
  have m: "fst ?m = (False, ''missing'')" by code_simp
  from r have "?r = ((False, ''The parameter cannot be set.''), snd ?r)"
    by (simp add: prod_eq_iff)
  from try_copy_by_name_failure_no_write[OF this] have r': "snd ?r = ex_target" .
  from m have "?m = ((False, ''missing''), snd ?m)"
    by (simp add: prod_eq_iff)
  from try_copy_by_name_failure_no_write[OF this] have "snd ?m = ex_target" .
  with r r' m show ?thesis by simp
qed

text \<open>
  C9. \<^verbatim>\<open>_set_param_value\<close> on a String parameter hands the host the empty string when
  the value is \<^verbatim>\<open>None\<close>, so the write succeeds where the host accepts the empty
  string, and hands it the value itself otherwise; on a Double, Integer or ElementId
  parameter it hands the host the value as it is; on any other storage type it calls no
  \<^verbatim>\<open>Set\<close>, leaves the parameter alone and returns \<^verbatim>\<open>False\<close>.
\<close>

theorem set_param_value_dispatch:
  "(StorageType p = StString \<longrightarrow>
      set_param_value h p PyNone = written (host_Set h p (PyStr [])) \<and>
      (write_fault h p (PyStr []) = None \<longrightarrow>
         set_param_value h p PyNone = Inr (True, p\<lparr>AsString := Some []\<rparr>)) \<and>
      (v \<noteq> PyNone \<longrightarrow> set_param_value h p v = written (host_Set h p v))) \<and>
   (StorageType p \<in> {StDouble, StInteger, StElementId} \<longrightarrow>
      set_param_value h p v = written (host_Set h p v)) \<and>
   (StorageType p = StNone \<longrightarrow> set_param_value h p v = Inr (False, p))"
  by (auto simp: set_param_value_def host_Set_def written_def)

text \<open>The three kinds of dispatch on concrete parameters.\<close>

theorem set_param_value_dispatch_witness:
  "set_param_value ex_host (string_param ''Comments'' False (Some ''old'')) PyNone =
     Inr (True, string_param ''Comments'' False (Some [])) \<and>
   set_param_value ex_host (number_param ''Width'' StInteger False 0 3) (PyInt 7) =
     Inr (True, number_param ''Width'' StInteger False 0 7) \<and>
   set_param_value ex_host (number_param ''Odd'' StNone False 0 3) (PyInt 7) =
     Inr (False, number_param ''Odd'' StNone False 0 3)"
proof -
  let ?c = "string_param ''Comments'' False (Some ''old'')"
  have "StorageType ?c = StString" "write_fault ex_host ?c (PyStr []) = None"
    by (simp_all add: string_param_def ex_host_def)
  with set_param_value_dispatch[of ?c ex_host PyNone]
  have "set_param_value ex_host ?c PyNone = Inr (True, ?c\<lparr>AsString := Some []\<rparr>)" by blast
  moreover have "?c\<lparr>AsString := Some []\<rparr> = string_param ''Comments'' False (Some [])"
    by (simp add: string_param_def)
  moreover
  let ?w = "number_param ''Width'' StInteger False 0 3"
  have "StorageType ?w \<in> {StDouble, StInteger, StElementId}" by (simp add: number_param_def)
  with set_param_value_dispatch[of ?w ex_host "PyInt 7"]
  have "set_param_value ex_host ?w (PyInt 7) = written (host_Set ex_host ?w (PyInt 7))" by blast
  moreover have "written (host_Set ex_host ?w (PyInt 7)) = Inr (True, number_param ''Width'' StInteger False 0 7)"
    by (simp add: written_def host_Set_def ex_host_def number_param_def)
  moreover
  let ?o = "number_param ''Odd'' StNone False 0 3"
  have "StorageType ?o = StNone" by (simp add: number_param_def)
  with set_param_value_dispatch[of ?o ex_host "PyInt 7"]
  have "set_param_value ex_host ?o (PyInt 7) = Inr (False, ?o)" by blast
  ultimately show ?thesis by simp
qed

lemma LookupParameter_write_fault:
  "LookupParameter (h\<lparr>write_fault := w\<rparr>) e pn = LookupParameter h e pn"
proof -
  have "has_name (h\<lparr>write_fault := w\<rparr>) pn = has_name h pn"
    by (auto simp: fun_eq_iff has_name_def split: option.splits)
  then show ?thesis by (simp add: LookupParameter_def)
qed

text \<open>
  C2, as amended. When both parameters are found and their storage types differ,
  \<^verbatim>\<open>_try_copy_by_name\<close> returns \<^verbatim>\<open>ok = False\<close>, leaves the destination as it was, and
  does not depend on what the host's \<^verbatim>\<open>Set\<close> would do (no write is attempted, no value
  is converted). The reason is \<^verbatim>\<open>type mismatch\<close> when the checks before it pass: the
  name is neither empty nor blocked and the target parameter is not read-only.
\<close>

theorem type_mismatch_never_writes:
  assumes "LookupParameter h src_elem (clean (Some pname)) = Some (sb, sp, sa)"
    and "LookupParameter h dst_elem (clean (Some pname)) = Some (tb, tp, ta)"
    and "StorageType sp \<noteq> StorageType tp"
  shows "fst (fst (try_copy_by_name h doc src_elem dst_elem pname)) = False \<and>
         snd (try_copy_by_name h doc src_elem dst_elem pname) = dst_elem \<and>
         try_copy_by_name (h\<lparr>write_fault := w\<rparr>) doc src_elem dst_elem pname =
           try_copy_by_name h doc src_elem dst_elem pname \<and>
         (clean (Some pname) \<noteq> [] \<and> \<not> is_blocked (clean (Some pname)) \<and> \<not> IsReadOnly tp \<longrightarrow>
            snd (fst (try_copy_by_name h doc src_elem dst_elem pname)) = ''type mismatch'')"
  using assms
  by (simp add: try_copy_by_name_def Let_def LookupParameter_write_fault)

text \<open>The scenario of the specification: \<^verbatim>\<open>Width\<close> is a Double on the source, an Integer on the target.\<close>

theorem type_mismatch_never_writes_witness:
  "try_copy_by_name ex_host ex_doc ex_width_source ex_width_target ''Width'' =
     ((False, ''type mismatch''), ex_width_target)"
proof -
  let ?sp = "number_param ''Width'' StDouble False 2 0"
  let ?tp = "number_param ''Width'' StInteger False 0 3"
  have c: "clean (Some ''Width'') = ''Width''" by code_simp
  have s: "LookupParameter ex_host ex_width_source (clean (Some ''Width'')) = Some ([], ?sp, [])"
    unfolding c by code_simp
  have t: "LookupParameter ex_host ex_width_target (clean (Some ''Width'')) = Some ([], ?tp, [])"
    unfolding c by code_simp
  have d: "StorageType ?sp \<noteq> StorageType ?tp" by (simp add: number_param_def)
  have b: "clean (Some ''Width'') \<noteq> [] \<and> \<not> is_blocked (clean (Some ''Width'')) \<and> \<not> IsReadOnly ?tp"
    unfolding c by (rule conjI, simp, rule conjI, code_simp, simp add: number_param_def)
  from type_mismatch_never_writes[OF s t d, of ex_doc "write_fault ex_host"] b
  show ?thesis by (simp add: prod_eq_iff)
qed

text \<open>
  The reason is not \<^verbatim>\<open>type mismatch\<close> for every pair of differing storage types: the
  read-only check comes first, so a read-only Integer target of a Double source is
  reported as \<^verbatim>\<open>read-only\<close>.
\<close>

theorem type_mismatch_reason_counterexample:
  "LookupParameter ex_host ex_width_source (clean (Some ''Width'')) =
     Some ([], number_param ''Width'' StDouble False 2 0, []) \<and>
   LookupParameter ex_host ex_width_readonly (clean (Some ''Width'')) =
     Some ([], number_param ''Width'' StInteger True 0 3, []) \<and>
   StorageType (number_param ''Width'' StDouble False 2 0) \<noteq>
     StorageType (number_param ''Width'' StInteger True 0 3) \<and>
   fst (try_copy_by_name ex_host ex_doc ex_width_source ex_width_readonly ''Width'') =
     (False, ''read-only'')"
proof -
  have c: "clean (Some ''Width'') = ''Width''" by code_simp
  have s: "LookupParameter ex_host ex_width_source ''Width'' =
     Some ([], number_param ''Width'' StDouble False 2 0, [])"
    by code_simp
  have t: "LookupParameter ex_host ex_width_readonly ''Width'' =
     Some ([], number_param ''Width'' StInteger True 0 3, [])"
    by code_simp
  have b: "\<not> is_blocked ''Width''" by code_simp
  have r: "fst (try_copy_by_name ex_host ex_doc ex_width_source ex_width_readonly ''Width'') =
     (False, ''read-only'')"
    by (simp add: try_copy_by_name_def c s t b Let_def) (simp add: number_param_def)
  show ?thesis unfolding c using s t r by (simp add: number_param_def)
qed

lemma host_Set_keeps:
  "host_Set h p v = Inr p' \<Longrightarrow> Definition p' = Definition p \<and> StorageType p' = StorageType p"
  by (auto simp: host_Set_def split: option.splits pvalue.splits)

lemma has_name_cong: "Definition p' = Definition p \<Longrightarrow> has_name h pn p' = has_name h pn p"
  by (simp only: has_name_def)

lemma LookupParameter_replaced:
  assumes "LookupParameter h e pn = Some (b, p, a)" and "has_name h pn p' = has_name h pn p"
  shows "LookupParameter h (e\<lparr>Parameters := b @ p' # a\<rparr>) pn = Some (b, p', a)"
proof -
  from assms(1) have "List.extract (has_name h pn) (Parameters e) = Some (b, p, a)"
    by (simp only: LookupParameter_def)
  then have "Parameters e = b @ p # a \<and> has_name h pn p \<and> \<not> (\<exists>y\<in>set b. has_name h pn y)"
    by (rule extract_SomeE)
  with assms(2) have "b @ p' # a = b @ p' # a \<and> has_name h pn p' \<and> \<not> (\<exists>y\<in>set b. has_name h pn y)"
    by blast
  then have "List.extract (has_name h pn) (b @ p' # a) = Some (b, p', a)"
    by (rule extract_Some_iff[THEN iffD2])
  then show ?thesis by (simp add: LookupParameter_def)
qed

lemma written_True: "written r = Inr (True, p') \<longleftrightarrow> r = Inr p'"
  by (cases r) (simp_all add: written_def)

lemma set_param_value_True:
  assumes "set_param_value h p v = Inr (True, p')"
  shows "StorageType p \<noteq> StNone \<and>
     host_Set h p (if StorageType p = StString \<and> v = PyNone then PyStr [] else v) = Inr p'"
  using assms
  by (cases "StorageType p") (auto simp: set_param_value_def written_True split: if_splits)

lemma copy_body_True:
  assumes "copy_body h doc sp tp = Inr ((True, why), tp')"
  shows "\<exists>v. get_param_value h sp = Inr v \<and>
             \<not> (StorageType sp = StElementId \<and> unresolved doc v) \<and>
             StorageType tp \<noteq> StNone \<and>
             host_Set h tp (if StorageType tp = StString \<and> v = PyNone then PyStr [] else v) = Inr tp'"
proof (cases "get_param_value h sp")
  case (Inl msg)
  with assms show ?thesis by (simp add: copy_body_def)
next
  case (Inr v)
  show ?thesis
  proof (cases "StorageType sp = StElementId \<and> unresolved doc v")
    case True
    with assms Inr show ?thesis by (simp add: copy_body_def)
  next
    case False
    with assms Inr have "set_param_value h tp v = Inr (True, tp')"
      by (simp add: copy_body_def split: sum.splits prod.splits bool.splits)
    from set_param_value_True[OF this] Inr False show ?thesis by blast
  qed
qed

lemma read_back:
  assumes "get_param_value h sp = Inr v" and "StorageType sp = StorageType tp"
    and "StorageType tp \<noteq> StNone"
    and "host_Set h tp (if StorageType tp = StString \<and> v = PyNone then PyStr [] else v) = Inr tp'"
  shows "get_param_value h tp' = host_read h tp' (if v = PyNone then PyStr [] else v) \<and>
         (v = PyNone \<longrightarrow> StorageType sp = StString)"
  using assms
  by (cases "StorageType tp")
     (auto simp: get_param_value_def host_read_def host_Set_def
       split: option.splits if_splits)

lemma try_copy_by_name_True:
  assumes "try_copy_by_name h doc src_elem dst_elem pname = ((True, why), dst')"
  shows "\<exists>sb sp sa tb tp ta tp'.
    LookupParameter h src_elem (clean (Some pname)) = Some (sb, sp, sa) \<and>
    LookupParameter h dst_elem (clean (Some pname)) = Some (tb, tp, ta) \<and>
    StorageType sp = StorageType tp \<and>
    copy_body h doc sp tp = Inr ((True, why), tp') \<and>
    dst' = dst_elem\<lparr>Parameters := tb @ tp' # ta\<rparr>"
proof (cases "LookupParameter h src_elem (clean (Some pname))")
  case None
  with assms show ?thesis by (simp add: try_copy_by_name_def Let_def split: if_splits)
next
  case s: (Some x)
  obtain sb sp sa where x: "x = (sb, sp, sa)" by (cases x)
  show ?thesis
  proof (cases "LookupParameter h dst_elem (clean (Some pname))")
    case None
    with assms s x show ?thesis by (simp add: try_copy_by_name_def Let_def split: if_splits)
  next
    case t: (Some y)
    obtain tb tp ta where y: "y = (tb, tp, ta)" by (cases y)
    from assms s x t y show ?thesis
      by (simp add: try_copy_by_name_def Let_def split: if_splits sum.splits prod.splits)
  qed
qed

text \<open>
  C3, as amended. After a call that returns \<^verbatim>\<open>ok = True\<close>, the lookup of the same name
  on the destination finds a parameter, and reading it gives the value \<open>v\<close> that was
  read off the source before the call (unless the host's accessor raises on that read),
  with one exception: when \<open>v\<close> is \<^verbatim>\<open>None\<close>, which only a String parameter
  gives, the destination reads the empty string. An element id that was copied is the
  invalid id or resolves in the document.
\<close>

theorem copy_round_trip:
  assumes "try_copy_by_name h doc src_elem dst_elem pname = ((True, why), dst')"
  shows "\<exists>v tb tp' ta.
           read_named h src_elem pname = Some (Inr v) \<and>
           LookupParameter h dst' (clean (Some pname)) = Some (tb, tp', ta) \<and>
           read_named h dst' pname = Some (host_read h tp' (if v = PyNone then PyStr [] else v)) \<and>
           (v = PyNone \<longrightarrow> StorageType tp' = StString) \<and>
           (\<forall>i. v = PyElementId i \<longrightarrow> i = InvalidElementId \<or> GetElement doc i \<noteq> None)"
proof -
  let ?pn = "clean (Some pname)"
  from try_copy_by_name_True[OF assms] obtain sb sp sa tb tp ta tp' where
    s: "LookupParameter h src_elem ?pn = Some (sb, sp, sa)" and
    t: "LookupParameter h dst_elem ?pn = Some (tb, tp, ta)" and
    ty: "StorageType sp = StorageType tp" and
    cb: "copy_body h doc sp tp = Inr ((True, why), tp')" and
    d: "dst' = dst_elem\<lparr>Parameters := tb @ tp' # ta\<rparr>"
    by blast
  from copy_body_True[OF cb] obtain v where
    v: "get_param_value h sp = Inr v" and
    u: "\<not> (StorageType sp = StElementId \<and> unresolved doc v)" and
    n: "StorageType tp \<noteq> StNone" and
    w: "host_Set h tp (if StorageType tp = StString \<and> v = PyNone then PyStr [] else v) = Inr tp'"
    by blast
  from host_Set_keeps[OF w] have k: "Definition tp' = Definition tp" "StorageType tp' = StorageType tp"
    by simp_all
  from LookupParameter_replaced[OF t has_name_cong[OF k(1)]] d
  have l: "LookupParameter h dst' ?pn = Some (tb, tp', ta)" by simp
  from read_back[OF v ty n w]
  have rb: "get_param_value h tp' = host_read h tp' (if v = PyNone then PyStr [] else v)"
    and nn: "v = PyNone \<longrightarrow> StorageType sp = StString" by simp_all
  have e: "\<forall>i. v = PyElementId i \<longrightarrow> i = InvalidElementId \<or> GetElement doc i \<noteq> None"
  proof (intro allI impI)
    fix i assume vi: "v = PyElementId i"
    with v have "StorageType sp = StElementId"
      by (cases "StorageType sp")
         (auto simp: get_param_value_def host_read_def split: option.splits)
    with u vi show "i = InvalidElementId \<or> GetElement doc i \<noteq> None"
      by (auto simp: unresolved_def)
  qed
  show ?thesis
    using s v l rb nn e ty k(2) by (simp add: read_named_def)
qed

text \<open>The scenario of the specification: \<^verbatim>\<open>Comments = "A"\<close> arrives on the target.\<close>

theorem copy_round_trip_witness:
  "fst (try_copy_by_name ex_host ex_doc ex_source ex_target ''Comments'') = (True, []) \<and>
   read_named ex_host ex_source ''Comments'' = Some (Inr (PyStr ''A'')) \<and>
   read_named ex_host (snd (try_copy_by_name ex_host ex_doc ex_source ex_target ''Comments''))
     ''Comments'' = Some (Inr (PyStr ''A''))"
proof -
  let ?r = "try_copy_by_name ex_host ex_doc ex_source ex_target ''Comments''"
  have f: "fst ?r = (True, [])" by code_simp
  then have "?r = ((True, []), snd ?r)" by (simp add: prod_eq_iff)
  from copy_round_trip[OF this] obtain v tb tp' ta where
    a: "read_named ex_host ex_source ''Comments'' = Some (Inr v)" and
    b: "read_named ex_host (snd ?r) ''Comments'' =
          Some (host_read ex_host tp' (if v = PyNone then PyStr [] else v))"
    by blast
  have s: "read_named ex_host ex_source ''Comments'' = Some (Inr (PyStr ''A''))" by code_simp
  with a have "v = PyStr ''A''" by simp
  with b have "read_named ex_host (snd ?r) ''Comments'' = Some (Inr (PyStr ''A''))"
    by (simp add: host_read_def ex_host_def)
  with f s show ?thesis by simp
qed

text \<open>
  A String parameter without a value on the source: the copy succeeds, the source read
  \<^verbatim>\<open>None\<close>, and the destination reads the empty string afterwards.
\<close>

theorem copy_round_trip_counterexample:
  "fst (try_copy_by_name ex_host ex_doc ex_unset_source ex_target ''Comments'') = (True, []) \<and>
   read_named ex_host ex_unset_source ''Comments'' = Some (Inr PyNone) \<and>
   read_named ex_host (snd (try_copy_by_name ex_host ex_doc ex_unset_source ex_target ''Comments''))
     ''Comments'' = Some (Inr (PyStr []))"
  by code_simp

lemma build_loop_Cons:
  "build_loop (p # ps) m =
     (case entry_of p of
        None \<Rightarrow> build_loop ps m
      | Some (k, d) \<Rightarrow>
          if map_of m k \<noteq> None then build_loop ps m
          else build_loop ps (AList.update k d m))"
  by (simp add: entry_of_def Let_def split: option.splits)

lemma map_of_build_loop:
  "map_of (build_loop ps m) k =
     (case map_of m k of
        Some d \<Rightarrow> Some d
      | None \<Rightarrow> map_option snd (find (\<lambda>e. fst e = k) (List.map_filter entry_of ps)))"
proof (induction ps arbitrary: m)
  case Nil
  then show ?case by (simp add: List.map_filter_simps split: option.splits)
next
  case (Cons p ps)
  show ?case
  proof (cases "entry_of p")
    case None
    then show ?thesis
      by (simp add: build_loop_Cons Cons.IH List.map_filter_simps del: build_loop.simps
          split: option.splits)
  next
    case (Some e)
    obtain k' d' where e: "e = (k', d')" by (cases e)
    show ?thesis
    proof (cases "map_of m k' \<noteq> None")
      case True
      with Some e show ?thesis
        by (auto simp: build_loop_Cons Cons.IH List.map_filter_simps
            simp del: build_loop.simps split: option.splits)
    next
      case False
      with Some e show ?thesis
        by (auto simp: build_loop_Cons Cons.IH List.map_filter_simps update_conv'
            simp del: build_loop.simps split: option.splits)
    qed
  qed
qed

lemma distinct_build_loop:
  "distinct (map fst m) \<Longrightarrow> distinct (map fst (build_loop ps m))"
proof (induction ps arbitrary: m)
  case Nil
  then show ?case by simp
next
  case (Cons p ps)
  then show ?case
    by (simp only: build_loop_Cons)
       (auto simp: distinct_update split: option.splits)
qed

lemma entry_of_Some:
  assumes "entry_of p = Some (k, d)"
  shows "k \<noteq> [] \<and> \<not> is_blocked k \<and> name d \<noteq> [] \<and> \<not> is_blocked (name d) \<and> k = lower (name d)"
  using assms
  by (auto simp: entry_of_def Let_def lower_Nil_iff is_blocked_lower
      split: option.splits if_splits)

lemma set_build_loop:
  assumes "(k, d) \<in> set (build_loop ps m)"
  shows "(k, d) \<in> set m \<or> (\<exists>p \<in> set ps. entry_of p = Some (k, d))"
  using assms
proof (induction ps arbitrary: m)
  case Nil
  then show ?case by simp
next
  case (Cons p ps)
  show ?case
  proof (cases "entry_of p")
    case None
    with Cons.prems have "(k, d) \<in> set (build_loop ps m)"
      by (simp only: build_loop_Cons) simp
    from Cons.IH[OF this] show ?thesis by auto
  next
    case (Some e)
    obtain k' d' where e: "e = (k', d')" by (cases e)
    show ?thesis
    proof (cases "map_of m k' \<noteq> None")
      case True
      with Cons.prems Some e have "(k, d) \<in> set (build_loop ps m)"
        by (simp only: build_loop_Cons) simp
      from Cons.IH[OF this] show ?thesis by auto
    next
      case False
      with Cons.prems Some e have "(k, d) \<in> set (build_loop ps (AList.update k' d' m))"
        by (simp only: build_loop_Cons) simp
      from Cons.IH[OF this] have
        "(k, d) \<in> set (AList.update k' d' m) \<or> (\<exists>p \<in> set ps. entry_of p = Some (k, d))" .
      moreover have "set (AList.update k' d' m) \<subseteq> insert (k', d') (set m)"
        by (induction m) auto
      ultimately show ?thesis using Some e by auto
    qed
  qed
qed

subsection \<open>The source catalogue\<close>

text \<open>
  C7. The mapping built by \<^verbatim>\<open>_build_source_param_map\<close> has no key twice; the
  descriptor under a key is that of the first parameter, in enumeration order, whose
  cleaned name is neither empty nor blocked and lower-cases to the key, so later
  parameters with the same lower-cased name are ignored; and every entry has a
  non-empty, non-blocked name whose lower-casing is its key.
\<close>

theorem build_source_param_map_first_wins:
  "distinct (map fst (build_source_param_map source)) \<and>
   (\<forall>k. map_of (build_source_param_map source) k =
        map_option snd
          (find (\<lambda>e. fst e = k)
             (List.map_filter entry_of
                (if params_fault source then [] else Parameters source)))) \<and>
   (\<forall>k d. (k, d) \<in> set (build_source_param_map source) \<longrightarrow>
        k \<noteq> [] \<and> \<not> is_blocked k \<and> name d \<noteq> [] \<and> \<not> is_blocked (name d) \<and>
        k = lower (name d))"
proof (intro conjI allI impI)
  show "distinct (map fst (build_source_param_map source))"
    by (simp add: build_source_param_map_def distinct_build_loop)
next
  fix k
  show "map_of (build_source_param_map source) k =
        map_option snd
          (find (\<lambda>e. fst e = k)
             (List.map_filter entry_of
                (if params_fault source then [] else Parameters source)))"
    by (simp only: build_source_param_map_def map_of_build_loop) simp
next
  fix k d
  assume "(k, d) \<in> set (build_source_param_map source)"
  then obtain p where "entry_of p = Some (k, d)"
    unfolding build_source_param_map_def by (auto dest: set_build_loop)
  from entry_of_Some[OF this]
  show "k \<noteq> []" "\<not> is_blocked k" "name d \<noteq> []" "\<not> is_blocked (name d)" "k = lower (name d)"
    by blast+
qed

text \<open>
  An element that reports \<^verbatim>\<open>COMMENTS\<close> (read-only) before \<^verbatim>\<open>Comments\<close>: the first
  one is kept. The blocked parameter of the example source is not entered.
\<close>

theorem build_source_param_map_first_wins_witness:
  "distinct (map fst (build_source_param_map ex_target2)) \<and>
   map_of (build_source_param_map ex_target2) ''comments'' =
     Some \<lparr>name = ''COMMENTS'', display = ''COMMENTS   [String | RO]''\<rparr> \<and>
   map_of (build_source_param_map ex_source) ''arbeitsebene'' = None"
proof -
  have a: "map_option snd
          (find (\<lambda>e. fst e = ''comments'')
             (List.map_filter entry_of
                (if params_fault ex_target2 then [] else Parameters ex_target2))) =
        Some \<lparr>name = ''COMMENTS'', display = ''COMMENTS   [String | RO]''\<rparr>"
    by code_simp
  have b: "map_option snd
          (find (\<lambda>e. fst e = ''arbeitsebene'')
             (List.map_filter entry_of
                (if params_fault ex_source then [] else Parameters ex_source))) = None"
    by code_simp
  from build_source_param_map_first_wins[of ex_target2]
    build_source_param_map_first_wins[of ex_source] a b
  show ?thesis by metis
qed

subsection \<open>The common parameter list\<close>

lemma common_keys_loop_eq:
  "common_keys_loop doc tids ck =
     ck \<inter> (\<Inter>tid \<in> set tids.
             case GetElement doc tid of None \<Rightarrow> UNIV | Some tgt \<Rightarrow> param_names_lower tgt)"
proof (induction tids arbitrary: ck)
  case Nil
  then show ?case by simp
next
  case (Cons tid tids)
  then show ?case by (cases "GetElement doc tid") auto
qed

lemma common_keys_loop_append:
  "common_keys_loop doc (xs @ ys) ck = common_keys_loop doc ys (common_keys_loop doc xs ck)"
  by (induction xs arbitrary: ck) (simp_all split: option.splits)

text \<open>
  C8. The selectable set does not depend on the order of the targets: two target lists
  that are permutations of each other give the same set of common keys. Running the
  loop over a concatenation is running it over the parts in turn, in either order.
\<close>

theorem common_keys_permutation:
  assumes "mset target_ids = mset target_ids'"
  shows "common_keys doc source target_ids = common_keys doc source target_ids' \<and>
         common_keys doc source (xs @ ys) = common_keys doc source (ys @ xs)"
proof -
  from assms have "set target_ids = set target_ids'" by (rule mset_eq_setD)
  then have "common_keys doc source target_ids = common_keys doc source target_ids'"
    by (simp add: common_keys_def common_keys_loop_eq)
  moreover have "set (xs @ ys) = set (ys @ xs)" by auto
  then have "common_keys doc source (xs @ ys) = common_keys doc source (ys @ xs)"
    by (simp only: common_keys_def common_keys_loop_eq)
  ultimately show ?thesis by simp
qed

text \<open>The example source with the two example targets, in both orders.\<close>

theorem common_keys_permutation_witness:
  "mset [2, 3] = mset [3, 2 :: int] \<and>
   common_keys ex_doc ex_source [2, 3] = common_keys ex_doc ex_source [3, 2] \<and>
   common_keys ex_doc ex_source [2, 3] = {''comments''}"
proof -
  have m: "mset [2, 3] = mset [3, 2 :: int]" by simp
  have c: "common_keys ex_doc ex_source [2, 3] = {''comments''}" by code_simp
  from common_keys_permutation[OF m, of ex_doc ex_source] m c show ?thesis by simp
qed

subsection \<open>Picking the targets\<close>

lemma GetElement_Some_id: "GetElement doc i = Some e \<Longrightarrow> ElemId e = i"
  by (auto simp: GetElement_def find_Some_iff)

lemma pick_targets_inv:
  assumes "pick_targets doc source evs tids = Some (Inr out)"
    and "ElemId source \<notin> set tids" and "distinct tids"
  shows "ElemId source \<notin> set out \<and> distinct out"
  using assms
proof (induction evs arbitrary: tids)
  case Nil
  then show ?case by simp
next
  case (Cons ev evs)
  show ?case
  proof (cases ev)
    case (Picked r)
    show ?thesis
    proof (cases "GetElement doc r")
      case None
      with Cons.prems Picked have "pick_targets doc source evs tids = Some (Inr out)" by simp
      from Cons.IH[OF this Cons.prems(2,3)] show ?thesis .
    next
      case (Some e)
      show ?thesis
      proof (cases "ElemId e = ElemId source")
        case True
        with Cons.prems Picked Some
        have "pick_targets doc source evs tids = Some (Inr out)" by simp
        from Cons.IH[OF this Cons.prems(2,3)] show ?thesis .
      next
        case False
        let ?t = "if ElemId e \<in> set tids then remove1 (ElemId e) tids else tids @ [ElemId e]"
        from Cons.prems Picked Some False
        have p: "pick_targets doc source evs ?t = Some (Inr out)"
          by (simp split: if_splits)
        from Cons.prems(2,3) False have "ElemId source \<notin> set ?t" "distinct ?t"
          by (auto dest: notin_set_remove1)
        from Cons.IH[OF p this] show ?thesis .
      qed
    qed
  next
    case (Raised cls msg)
    with Cons.prems show ?thesis by (simp split: if_splits)
  qed
qed

lemma run_results_ids:
  "(tgt, rs) \<in> set (run_results h source names doc tids) \<Longrightarrow> ElemId tgt \<in> set tids"
proof (induction tids arbitrary: doc)
  case Nil
  then show ?case by simp
next
  case (Cons tid tids)
  show ?case
  proof (cases "GetElement doc tid")
    case None
    with Cons show ?thesis by auto
  next
    case (Some t)
    with Cons show ?thesis by (auto dest: GetElement_Some_id)
  qed
qed

text \<open>
  C10. When the picking loop ends on a cancel, the list of target ids it leaves does not
  hold the id of the source and holds no id twice (a second pick of an id removes it);
  hence every element that the apply phase passes to \<^verbatim>\<open>_try_copy_by_name\<close> as destination
  has an id other than the source's, and is not the source.
\<close>

theorem source_never_a_target:
  assumes "pick_targets doc source events [] = Some (Inr target_ids)"
  shows "ElemId source \<notin> set target_ids \<and> distinct target_ids \<and>
         (\<forall>tgt rs. (tgt, rs) \<in> set (run_results h source picked_names doc target_ids) \<longrightarrow>
            ElemId tgt \<noteq> ElemId source \<and> tgt \<noteq> source)"
proof -
  from pick_targets_inv[OF assms] have i: "ElemId source \<notin> set target_ids" "distinct target_ids"
    by simp_all
  then show ?thesis by (auto dest: run_results_ids)
qed

text \<open>
  Picks on the example document: a target, the source itself, a second target picked
  twice, an id that does not resolve, then the cancel.
\<close>

theorem source_never_a_target_witness:
  "pick_targets ex_doc ex_source
     [Picked 2, Picked 1, Picked 3, Picked 3, Picked 99,
      Raised ''OperationCanceledException'' []] [] = Some (Inr [2]) \<and>
   ElemId ex_source \<notin> set [2] \<and>
   map (\<lambda>x. ElemId (fst x)) (run_results ex_host ex_source [''Comments''] ex_doc [2]) = [2]"
proof -
  have p: "pick_targets ex_doc ex_source
     [Picked 2, Picked 1, Picked 3, Picked 3, Picked 99,
      Raised ''OperationCanceledException'' []] [] = Some (Inr [2])"
    by code_simp
  have r: "map (\<lambda>x. ElemId (fst x)) (run_results ex_host ex_source [''Comments''] ex_doc [2]) = [2]"
    by code_simp
  from source_never_a_target[OF p] r p show ?thesis by simp
qed

subsection \<open>The apply phase\<close>

lemma copy_names_eq:
  "copy_names h doc source names (tgt, ok_any, s) =
     (elem_after h doc source tgt names,
      ok_any \<or> list_ex ok_of (field_results h doc source tgt names),
      s\<lparr>sets_ok := sets_ok s + length (filter ok_of (field_results h doc source tgt names)),
        sets_fail := sets_fail s +
          length (filter (\<lambda>r. \<not> ok_of r) (field_results h doc source tgt names)),
        fail_samples := fail_samples s @
          take (10 - length (fail_samples s))
            (map sample_line (filter sampled (field_results h doc source tgt names)))\<rparr>)"
proof (induction names arbitrary: tgt ok_any s)
  case Nil
  then show ?case by simp
next
  case (Cons pname rest)
  obtain ok why tgt' where r: "try_copy_by_name h doc source tgt pname = ((ok, why), tgt')"
    by (metis prod.exhaust)
  show ?case
  proof (cases ok)
    case True
    with r show ?thesis
      by (simp add: Cons.IH ok_of_def sampled_def)
  next
    case False
    show ?thesis
    proof (cases "why \<in> set sampled_reasons \<and> length (fail_samples s) < 10")
      case True
      with r False show ?thesis
        by (simp add: Cons.IH ok_of_def sampled_def sample_line_def take_Cons')
    next
      case n: False
      with r False show ?thesis
        by (auto simp: Cons.IH ok_of_def sampled_def sample_line_def)
    qed
  qed
qed

lemma take_samples_step:
  "(xs @ take (10 - length xs) ys) @
     take (10 - length (xs @ take (10 - length xs) ys)) zs =
   xs @ take (10 - length xs) (ys @ zs)"
proof (cases "length ys \<le> 10 - length xs")
  case True
  then have "10 - (length xs + length ys) = 10 - length xs - length ys" by arith
  with True show ?thesis by simp
next
  case False
  then have "10 - (length xs + (10 - length xs)) = 0" by arith
  with False show ?thesis by (simp add: min_def)
qed

lemma try_copy_by_name_ElemId:
  "ElemId (snd (try_copy_by_name h doc src_elem dst_elem pname)) = ElemId dst_elem"
  by (simp add: try_copy_by_name_def Let_def split: option.splits prod.splits sum.splits)

lemma elem_after_ElemId: "ElemId (elem_after h doc source tgt names) = ElemId tgt"
  by (induction names arbitrary: tgt) (simp_all add: try_copy_by_name_ElemId)

lemma GetElement_None_iff: "GetElement doc i = None \<longleftrightarrow> i \<notin> ElemId ` set doc"
  by (auto simp: GetElement_def find_None_iff)

lemma doc_put_ids: "map ElemId (doc_put doc e') = map ElemId doc"
proof (cases "List.extract (\<lambda>e. ElemId e = ElemId e') doc")
  case None
  then show ?thesis by (simp add: doc_put_def)
next
  case (Some x)
  obtain before e after where x: "x = (before, e, after)" by (cases x)
  from Some x have "doc = before @ e # after \<and> ElemId e = ElemId e'"
    by (auto dest: extract_SomeE)
  with Some x show ?thesis by (simp add: doc_put_def)
qed

lemma GetElement_doc_put_None:
  "GetElement (doc_put doc e') i = None \<longleftrightarrow> GetElement doc i = None"
proof -
  have "ElemId ` set (doc_put doc e') = ElemId ` set doc"
    using doc_put_ids[of doc e'] by (metis set_map)
  then show ?thesis by (simp add: GetElement_None_iff)
qed

lemma GetElement_doc_put_Some:
  "(\<exists>y. GetElement (doc_put doc e') i = Some y) \<longleftrightarrow> (\<exists>y. GetElement doc i = Some y)"
  using GetElement_doc_put_None[of doc e' i] by (metis not_None_eq)

lemma run_results_targets:
  "map (\<lambda>x. ElemId (fst x)) (run_results h source names doc tids) =
     filter (\<lambda>tid. GetElement doc tid \<noteq> None) tids"
proof (induction tids arbitrary: doc)
  case Nil
  then show ?case by simp
next
  case (Cons tid tids)
  show ?case
  proof (cases "GetElement doc tid")
    case None
    with Cons show ?thesis by simp
  next
    case (Some tgt)
    with Cons show ?thesis
      by (simp add: GetElement_doc_put_Some GetElement_Some_id)
  qed
qed

lemma field_results_names: "map fst (field_results h doc source tgt names) = names"
  by (induction names arbitrary: tgt) (simp_all split: prod.splits)

lemma run_results_names:
  "(tgt, rs) \<in> set (run_results h source names doc tids) \<Longrightarrow> map fst rs = names"
proof (induction tids arbitrary: doc)
  case Nil
  then show ?case by simp
next
  case (Cons tid tids)
  then show ?case
    by (cases "GetElement doc tid") (auto simp: field_results_names)
qed

lemma apply_loop_summary:
  "snd (apply_loop h source names tids (doc, s)) =
     s\<lparr>elem_updated := elem_updated s +
          length (filter (\<lambda>x. list_ex ok_of (snd x)) (run_results h source names doc tids)),
       elem_skipped := elem_skipped s +
          length (filter (\<lambda>tid. GetElement doc tid = None) tids) +
          length (filter (\<lambda>x. \<not> list_ex ok_of (snd x)) (run_results h source names doc tids)),
       sets_ok := sets_ok s +
          length (filter ok_of (concat (map snd (run_results h source names doc tids)))),
       sets_fail := sets_fail s +
          length (filter (\<lambda>r. \<not> ok_of r)
                    (concat (map snd (run_results h source names doc tids)))),
       fail_samples := fail_samples s @
          take (10 - length (fail_samples s))
            (map sample_line
               (filter sampled (concat (map snd (run_results h source names doc tids)))))\<rparr>"
proof (induction tids arbitrary: doc s)
  case Nil
  then show ?case by simp
next
  case (Cons tid tids)
  show ?case
  proof (cases "GetElement doc tid")
    case None
    then show ?thesis by (simp add: Cons.IH)
  next
    case (Some tgt)
    let ?fr = "field_results h doc source tgt names"
    let ?doc' = "doc_put doc (elem_after h doc source tgt names)"
    have f: "filter (\<lambda>t. GetElement ?doc' t = None) tids =
             filter (\<lambda>t. GetElement doc t = None) tids"
      by (simp add: GetElement_doc_put_None)
    show ?thesis
    proof (cases "list_ex ok_of ?fr")
      case True
      with Some show ?thesis
        using take_samples_step[of "fail_samples s" "map sample_line (filter sampled ?fr)"]
        by (simp add: copy_names_eq Cons.IH f)
    next
      case False
      with Some show ?thesis
        using take_samples_step[of "fail_samples s" "map sample_line (filter sampled ?fr)"]
        by (simp add: copy_names_eq Cons.IH f)
    qed
  qed
qed

lemma length_concat_const:
  "(\<And>x. x \<in> set xs \<Longrightarrow> length (f x) = n) \<Longrightarrow> length (concat (map f xs)) = length xs * n"
  by (induction xs) simp_all

lemma length_run_calls:
  "length (run_calls h source names doc tids) =
     length (filter (\<lambda>tid. GetElement doc tid \<noteq> None) tids) * length names"
proof -
  have "\<And>x. x \<in> set (run_results h source names doc tids) \<Longrightarrow> length (snd x) = length names"
  proof -
    fix x assume "x \<in> set (run_results h source names doc tids)"
    then have "map fst (snd x) = names"
      using run_results_names[of "fst x" "snd x"] by simp
    then show "length (snd x) = length names" by (metis length_map)
  qed
  then have "length (run_calls h source names doc tids) =
      length (run_results h source names doc tids) * length names"
    unfolding run_calls_def by (rule length_concat_const)
  moreover have "length (run_results h source names doc tids) =
      length (filter (\<lambda>tid. GetElement doc tid \<noteq> None) tids)"
    using run_results_targets[of h source names doc tids] by (metis length_map)
  ultimately show ?thesis by simp
qed

lemma apply_copy_summary:
  "snd (apply_copy h doc source tids names) =
     \<lparr>elem_updated =
          length (filter (\<lambda>x. list_ex ok_of (snd x)) (run_results h source names doc tids)),
       elem_skipped =
          length (filter (\<lambda>tid. GetElement doc tid = None) tids) +
          length (filter (\<lambda>x. \<not> list_ex ok_of (snd x)) (run_results h source names doc tids)),
       sets_ok = length (filter ok_of (run_calls h source names doc tids)),
       sets_fail = length (filter (\<lambda>r. \<not> ok_of r) (run_calls h source names doc tids)),
       fail_samples =
          take 10 (map sample_line (filter sampled (run_calls h source names doc tids)))\<rparr>"
  by (simp add: apply_copy_def apply_loop_summary run_calls_def)

lemma apply_copy_totals:
  "elem_updated (snd (apply_copy h doc source tids names)) +
     elem_skipped (snd (apply_copy h doc source tids names)) = length tids \<and>
   sets_ok (snd (apply_copy h doc source tids names)) +
     sets_fail (snd (apply_copy h doc source tids names)) =
     length (filter (\<lambda>tid. GetElement doc tid \<noteq> None) tids) * length names"
proof -
  let ?R = "run_results h source names doc tids"
  have "length (filter (\<lambda>x. list_ex ok_of (snd x)) ?R) +
        length (filter (\<lambda>x. \<not> list_ex ok_of (snd x)) ?R) = length ?R"
    by (rule sum_length_filter_compl)
  moreover have "length ?R = length (filter (\<lambda>tid. GetElement doc tid \<noteq> None) tids)"
    using run_results_targets[of h source names doc tids] by (metis length_map)
  moreover have "length (filter (\<lambda>tid. GetElement doc tid \<noteq> None) tids) +
        length (filter (\<lambda>tid. GetElement doc tid = None) tids) = length tids"
    using sum_length_filter_compl[of "\<lambda>tid. GetElement doc tid \<noteq> None" tids] by simp
  moreover have "length (filter ok_of (run_calls h source names doc tids)) +
        length (filter (\<lambda>r. \<not> ok_of r) (run_calls h source names doc tids)) =
        length (run_calls h source names doc tids)"
    by (rule sum_length_filter_compl)
  ultimately show ?thesis
    by (simp add: apply_copy_summary length_run_calls)
qed

text \<open>
  C6, as amended. In a run, the targets that resolve are visited in order and each gets
  one call per picked name, in order; \<^verbatim>\<open>sets_ok\<close> counts the calls that succeeded and
  \<^verbatim>\<open>sets_fail\<close> the others, so each call adds one to exactly one of them; a target is
  counted as updated when one of its calls succeeded and as skipped otherwise (also when
  it does not resolve, where no call is made); and the samples are the first ten failed
  calls whose reason string is one of \<^verbatim>\<open>missing\<close>, \<^verbatim>\<open>read-only\<close>,
  \<^verbatim>\<open>type mismatch\<close>, \<^verbatim>\<open>elementid not in doc\<close>, whatever produced that string.
\<close>

theorem run_aggregation:
  "map (\<lambda>x. ElemId (fst x)) (run_results h source names doc tids) =
     filter (\<lambda>tid. GetElement doc tid \<noteq> None) tids \<and>
   (\<forall>tgt rs. (tgt, rs) \<in> set (run_results h source names doc tids) \<longrightarrow> map fst rs = names) \<and>
   sets_ok (snd (apply_copy h doc source tids names)) =
     length (filter ok_of (run_calls h source names doc tids)) \<and>
   sets_fail (snd (apply_copy h doc source tids names)) =
     length (filter (\<lambda>r. \<not> ok_of r) (run_calls h source names doc tids)) \<and>
   sets_ok (snd (apply_copy h doc source tids names)) +
     sets_fail (snd (apply_copy h doc source tids names)) =
     length (run_calls h source names doc tids) \<and>
   elem_updated (snd (apply_copy h doc source tids names)) =
     length (filter (\<lambda>x. list_ex ok_of (snd x)) (run_results h source names doc tids)) \<and>
   elem_updated (snd (apply_copy h doc source tids names)) +
     elem_skipped (snd (apply_copy h doc source tids names)) = length tids \<and>
   fail_samples (snd (apply_copy h doc source tids names)) =
     take 10 (map sample_line (filter sampled (run_calls h source names doc tids)))"
proof -
  have "\<forall>tgt rs. (tgt, rs) \<in> set (run_results h source names doc tids) \<longrightarrow> map fst rs = names"
    by (blast dest: run_results_names)
  moreover have "sets_ok (snd (apply_copy h doc source tids names)) +
     sets_fail (snd (apply_copy h doc source tids names)) =
     length (run_calls h source names doc tids)"
    using apply_copy_totals[of h doc source tids names] by (simp add: length_run_calls)
  ultimately show ?thesis
    using apply_copy_totals[of h doc source tids names]
    by (simp add: run_results_targets apply_copy_summary)
qed

text \<open>
  A run on the example document with the two targets and an id that does not resolve,
  for the names \<^verbatim>\<open>Comments\<close> and \<^verbatim>\<open>Mark\<close>.
\<close>

theorem run_aggregation_witness:
  "sets_ok (snd (apply_copy ex_host ex_doc ex_source [2, 3, 99] [''Comments'', ''Mark''])) = 2 \<and>
   sets_fail (snd (apply_copy ex_host ex_doc ex_source [2, 3, 99] [''Comments'', ''Mark''])) = 2 \<and>
   elem_updated (snd (apply_copy ex_host ex_doc ex_source [2, 3, 99] [''Comments'', ''Mark''])) = 2 \<and>
   elem_skipped (snd (apply_copy ex_host ex_doc ex_source [2, 3, 99] [''Comments'', ''Mark''])) = 1 \<and>
   fail_samples (snd (apply_copy ex_host ex_doc ex_source [2, 3, 99] [''Comments'', ''Mark''])) =
     [''Mark -> missing'', ''Mark -> missing'']"
proof -
  have c: "run_calls ex_host ex_source [''Comments'', ''Mark''] ex_doc [2, 3, 99] =
     [(''Comments'', True, []), (''Mark'', False, ''missing''),
      (''Comments'', True, []), (''Mark'', False, ''missing'')]"
    by code_simp
  have u: "length (filter (\<lambda>x. list_ex ok_of (snd x))
        (run_results ex_host ex_source [''Comments'', ''Mark''] ex_doc [2, 3, 99])) = 2"
    by code_simp
  have l: "take 10 (map sample_line (filter sampled
        [(''Comments'', True, []), (''Mark'', False, ''missing''),
         (''Comments'', True, []), (''Mark'', False, ''missing'')])) =
        [''Mark -> missing'', ''Mark -> missing'']"
    by code_simp
  have o: "length (filter ok_of
        [(''Comments'', True, []), (''Mark'', False, ''missing''),
         (''Comments'', True, []), (''Mark'', False, ''missing'')]) = 2"
    by (simp add: ok_of_def)
  have f: "length (filter (\<lambda>r. \<not> ok_of r)
        [(''Comments'', True, []), (''Mark'', False, ''missing''),
         (''Comments'', True, []), (''Mark'', False, ''missing'')]) = 2"
    by (simp add: ok_of_def)
  from run_aggregation[of ex_host ex_source "[''Comments'', ''Mark'']" ex_doc "[2, 3, 99]"]
  show ?thesis unfolding c u l o f by simp
qed

text \<open>
  A failure that carries the message of an exception is sampled when the message is one
  of the four strings: the target parameter is writable, the host's \<^verbatim>\<open>Set\<close> raises with
  the text \<^verbatim>\<open>read-only\<close>, and the line appears among the samples.
\<close>

theorem exception_message_sampled_counterexample:
  "IsReadOnly (string_param ''Comments'' False (Some [])) = False \<and>
   copy_body ex_terse_host ex_doc (string_param ''Comments'' False (Some ''A''))
     (string_param ''Comments'' False (Some [])) = Inl ''read-only'' \<and>
   fail_samples (snd (apply_copy ex_terse_host ex_doc ex_source [2] [''Comments''])) =
     [''Comments -> read-only'']"
  by code_simp

subsection \<open>A failed call and the rest of the run\<close>

lemma try_copy_by_name_False_same:
  assumes "try_copy_by_name h doc src_elem dst_elem pname = ((False, why), dst')"
  shows "dst' = dst_elem"
  using assms
  by (auto simp: try_copy_by_name_def Let_def
      split: if_splits option.splits sum.splits prod.splits
      dest!: LookupParameter_Some copy_body_False)

lemma doc_put_same:
  assumes "GetElement doc tid = Some tgt"
  shows "doc_put doc tgt = doc"
proof -
  from assms have i: "ElemId tgt = tid" by (rule GetElement_Some_id)
  let ?P = "\<lambda>e. ElemId e = tid"
  from assms have "(case dropWhile (Not \<circ> ?P) doc of [] \<Rightarrow> None | x # _ \<Rightarrow> Some x) = Some tgt"
    by (simp only: GetElement_def find_dropWhile)
  then obtain ys where d: "dropWhile (Not \<circ> ?P) doc = tgt # ys"
    by (cases "dropWhile (Not \<circ> ?P) doc") simp_all
  then have "List.extract ?P doc = Some (takeWhile (Not \<circ> ?P) doc, tgt, ys)"
    by (simp add: extract_def)
  moreover have "takeWhile (Not \<circ> ?P) doc @ tgt # ys = doc"
    using d by (metis takeWhile_dropWhile_id)
  ultimately show ?thesis by (simp add: doc_put_def i)
qed

lemma failed_calls_leave_target:
  "\<not> list_ex ok_of (field_results h doc source tgt names) \<Longrightarrow>
     elem_after h doc source tgt names = tgt"
proof (induction names arbitrary: tgt)
  case Nil
  then show ?case by simp
next
  case (Cons pname rest)
  obtain ok why tgt' where r: "try_copy_by_name h doc source tgt pname = ((ok, why), tgt')"
    by (metis prod.exhaust)
  with Cons.prems have f: "\<not> ok" and n: "\<not> list_ex ok_of (field_results h doc source tgt' rest)"
    by (simp_all add: ok_of_def fun_eq_iff list_ex_iff)
  from r f have "tgt' = tgt" by (auto dest: try_copy_by_name_False_same)
  with r n Cons.IH[of tgt] show ?case by simp
qed

lemma field_results_after_failure:
  assumes "try_copy_by_name h doc source tgt pname = ((False, why), tgt')"
  shows "field_results h doc source tgt (pname # rest) =
           (pname, False, why) # field_results h doc source tgt rest"
    and "copy_names h doc source (pname # rest) (tgt, ok_any, s) =
           copy_names h doc source rest
             (tgt, ok_any,
              if why \<in> set sampled_reasons \<and> length (fail_samples s) < 10
              then s\<lparr>sets_fail := sets_fail s + 1,
                     fail_samples := fail_samples s @ [pname @ '' -> '' @ why]\<rparr>
              else s\<lparr>sets_fail := sets_fail s + 1\<rparr>)"
proof -
  from assms have t: "tgt' = tgt" by (rule try_copy_by_name_False_same)
  from assms t show "field_results h doc source tgt (pname # rest) =
           (pname, False, why) # field_results h doc source tgt rest" by simp
  from assms t show "copy_names h doc source (pname # rest) (tgt, ok_any, s) =
           copy_names h doc source rest
             (tgt, ok_any,
              if why \<in> set sampled_reasons \<and> length (fail_samples s) < 10
              then s\<lparr>sets_fail := sets_fail s + 1,
                     fail_samples := fail_samples s @ [pname @ '' -> '' @ why]\<rparr>
              else s\<lparr>sets_fail := sets_fail s + 1\<rparr>)" by simp
qed

lemma next_target_after_failures:
  assumes "GetElement doc tid = Some tgt"
    and "\<not> list_ex ok_of (field_results h doc source tgt names)"
  shows "run_results h source names doc (tid # tids) =
           (tgt, field_results h doc source tgt names) # run_results h source names doc tids"
    and "apply_loop h source names (tid # tids) (doc, s) =
           apply_loop h source names tids
             (doc, (snd (snd (copy_names h doc source names (tgt, False, s))))
                     \<lparr>elem_skipped :=
                        elem_skipped (snd (snd (copy_names h doc source names (tgt, False, s)))) + 1\<rparr>)"
proof -
  from assms(2) have e: "elem_after h doc source tgt names = tgt"
    by (rule failed_calls_leave_target)
  from doc_put_same[OF assms(1)] have d: "doc_put doc tgt = doc" .
  from assms(1) e d show "run_results h source names doc (tid # tids) =
           (tgt, field_results h doc source tgt names) # run_results h source names doc tids"
    by simp
  from assms e d show "apply_loop h source names (tid # tids) (doc, s) =
           apply_loop h source names tids
             (doc, (snd (snd (copy_names h doc source names (tgt, False, s))))
                     \<lparr>elem_skipped :=
                        elem_skipped (snd (snd (copy_names h doc source names (tgt, False, s)))) + 1\<rparr>)"
    by (simp add: copy_names_eq)
qed

lemma run_calls_names:
  "map fst (run_calls h source names doc tids) =
     concat (map (\<lambda>tid. names) (filter (\<lambda>tid. GetElement doc tid \<noteq> None) tids))"
  unfolding run_calls_def
proof (induction tids arbitrary: doc)
  case Nil
  then show ?case by simp
next
  case (Cons tid tids)
  show ?case
  proof (cases "GetElement doc tid")
    case None
    with Cons show ?thesis by simp
  next
    case (Some tgt)
    have f: "filter (\<lambda>t. GetElement (doc_put doc (elem_after h doc source tgt names)) t \<noteq> None) tids =
             filter (\<lambda>t. GetElement doc t \<noteq> None) tids"
      by (simp add: GetElement_doc_put_None)
    from Some show ?thesis
      by (simp add: Cons.IH field_results_names f del: not_None_eq)
  qed
qed

text \<open>
  C5. An exception raised by the typed read of the source parameter or by the write to
  the target parameter leaves the \<^verbatim>\<open>try\<close> block of \<^verbatim>\<open>_try_copy_by_name\<close>, is caught
  there and becomes the result \<^verbatim>\<open>(False, str(e))\<close>, with the destination as it was.
  After a call that fails, for whatever reason, the loop over the picked names goes on
  with the remaining names on the untouched target, counting the failure; after a target
  all of whose calls failed, the loop over the targets goes on with the remaining
  targets on the unchanged document, counting the target as skipped. So a run makes the
  call for every picked name on every resolving target, in order, whatever the host
  raises, and \<^verbatim>\<open>sets_ok\<close> and \<^verbatim>\<open>sets_fail\<close> count the calls of that list that
  succeeded and that failed.
\<close>

theorem field_failure_is_contained:
  "(get_param_value h sp = Inl msg \<longrightarrow> copy_body h doc sp tp = Inl msg) \<and>
   (get_param_value h sp = Inr v \<and> \<not> (StorageType sp = StElementId \<and> unresolved doc v) \<and>
      set_param_value h tp v = Inl msg \<longrightarrow> copy_body h doc sp tp = Inl msg) \<and>
   (clean (Some pname) \<noteq> [] \<and> \<not> is_blocked (clean (Some pname)) \<and>
      LookupParameter h src_elem (clean (Some pname)) = Some (sb, sp, sa) \<and>
      LookupParameter h dst_elem (clean (Some pname)) = Some (tb, tp, ta) \<and>
      \<not> IsReadOnly tp \<and> StorageType sp = StorageType tp \<and>
      copy_body h doc sp tp = Inl msg \<longrightarrow>
      try_copy_by_name h doc src_elem dst_elem pname = ((False, msg), dst_elem)) \<and>
   (try_copy_by_name h doc source tgt pn = ((False, why), tgt') \<longrightarrow>
      copy_names h doc source (pn # rest) (tgt, ok_any, s) =
        copy_names h doc source rest
          (tgt, ok_any,
           if why \<in> set sampled_reasons \<and> length (fail_samples s) < 10
           then s\<lparr>sets_fail := sets_fail s + 1,
                  fail_samples := fail_samples s @ [pn @ '' -> '' @ why]\<rparr>
           else s\<lparr>sets_fail := sets_fail s + 1\<rparr>) \<and>
      field_results h doc source tgt (pn # rest) =
        (pn, False, why) # field_results h doc source tgt rest) \<and>
   (GetElement doc tid = Some tgt \<and> \<not> list_ex ok_of (field_results h doc source tgt names) \<longrightarrow>
      apply_loop h source names (tid # tids) (doc, s) =
        apply_loop h source names tids
          (doc, (snd (snd (copy_names h doc source names (tgt, False, s))))
                  \<lparr>elem_skipped :=
                     elem_skipped (snd (snd (copy_names h doc source names (tgt, False, s)))) + 1\<rparr>) \<and>
      run_results h source names doc (tid # tids) =
        (tgt, field_results h doc source tgt names) # run_results h source names doc tids) \<and>
   map fst (run_calls h source names doc tids) =
     concat (map (\<lambda>tid. names) (filter (\<lambda>tid. GetElement doc tid \<noteq> None) tids)) \<and>
   sets_ok (snd (apply_copy h doc source tids names)) =
     length (filter ok_of (run_calls h source names doc tids)) \<and>
   sets_fail (snd (apply_copy h doc source tids names)) =
     length (filter (\<lambda>r. \<not> ok_of r) (run_calls h source names doc tids)) \<and>
   sets_ok (snd (apply_copy h doc source tids names)) +
     sets_fail (snd (apply_copy h doc source tids names)) =
     length (filter (\<lambda>tid. GetElement doc tid \<noteq> None) tids) * length names \<and>
   elem_updated (snd (apply_copy h doc source tids names)) +
     elem_skipped (snd (apply_copy h doc source tids names)) = length tids"
proof -
  have a: "get_param_value h sp = Inl msg \<longrightarrow> copy_body h doc sp tp = Inl msg"
    by (simp add: copy_body_def)
  have b: "get_param_value h sp = Inr v \<and> \<not> (StorageType sp = StElementId \<and> unresolved doc v) \<and>
      set_param_value h tp v = Inl msg \<longrightarrow> copy_body h doc sp tp = Inl msg"
    by (auto simp: copy_body_def)
  have c: "clean (Some pname) \<noteq> [] \<and> \<not> is_blocked (clean (Some pname)) \<and>
      LookupParameter h src_elem (clean (Some pname)) = Some (sb, sp, sa) \<and>
      LookupParameter h dst_elem (clean (Some pname)) = Some (tb, tp, ta) \<and>
      \<not> IsReadOnly tp \<and> StorageType sp = StorageType tp \<and>
      copy_body h doc sp tp = Inl msg \<longrightarrow>
      try_copy_by_name h doc src_elem dst_elem pname = ((False, msg), dst_elem)"
    by (simp add: try_copy_by_name_def Let_def)
  have d: "sets_ok (snd (apply_copy h doc source tids names)) =
            length (filter ok_of (run_calls h source names doc tids))"
    "sets_fail (snd (apply_copy h doc source tids names)) =
            length (filter (\<lambda>r. \<not> ok_of r) (run_calls h source names doc tids))"
    by (simp_all add: apply_copy_summary)
  have e: "try_copy_by_name h doc source tgt pn = ((False, why), tgt') \<longrightarrow>
      copy_names h doc source (pn # rest) (tgt, ok_any, s) =
        copy_names h doc source rest
          (tgt, ok_any,
           if why \<in> set sampled_reasons \<and> length (fail_samples s) < 10
           then s\<lparr>sets_fail := sets_fail s + 1,
                  fail_samples := fail_samples s @ [pn @ '' -> '' @ why]\<rparr>
           else s\<lparr>sets_fail := sets_fail s + 1\<rparr>) \<and>
      field_results h doc source tgt (pn # rest) =
        (pn, False, why) # field_results h doc source tgt rest"
  proof (intro impI conjI)
    assume x: "try_copy_by_name h doc source tgt pn = ((False, why), tgt')"
    from field_results_after_failure(2)[OF x]
    show "copy_names h doc source (pn # rest) (tgt, ok_any, s) =
        copy_names h doc source rest
          (tgt, ok_any,
           if why \<in> set sampled_reasons \<and> length (fail_samples s) < 10
           then s\<lparr>sets_fail := sets_fail s + 1,
                  fail_samples := fail_samples s @ [pn @ '' -> '' @ why]\<rparr>
           else s\<lparr>sets_fail := sets_fail s + 1\<rparr>)" .
    from field_results_after_failure(1)[OF x]
    show "field_results h doc source tgt (pn # rest) =
        (pn, False, why) # field_results h doc source tgt rest" .
  qed
  have f: "GetElement doc tid = Some tgt \<and>
      \<not> list_ex ok_of (field_results h doc source tgt names) \<longrightarrow>
      apply_loop h source names (tid # tids) (doc, s) =
        apply_loop h source names tids
          (doc, (snd (snd (copy_names h doc source names (tgt, False, s))))
                  \<lparr>elem_skipped :=
                     elem_skipped (snd (snd (copy_names h doc source names (tgt, False, s)))) + 1\<rparr>) \<and>
      run_results h source names doc (tid # tids) =
        (tgt, field_results h doc source tgt names) # run_results h source names doc tids"
  proof (intro impI conjI)
    assume "GetElement doc tid = Some tgt \<and>
      \<not> list_ex ok_of (field_results h doc source tgt names)"
    then have x: "GetElement doc tid = Some tgt"
      and y: "\<not> list_ex ok_of (field_results h doc source tgt names)" by simp_all
    from next_target_after_failures(2)[OF x y]
    show "apply_loop h source names (tid # tids) (doc, s) =
        apply_loop h source names tids
          (doc, (snd (snd (copy_names h doc source names (tgt, False, s))))
                  \<lparr>elem_skipped :=
                     elem_skipped (snd (snd (copy_names h doc source names (tgt, False, s)))) + 1\<rparr>)" .
    from next_target_after_failures(1)[OF x y]
    show "run_results h source names doc (tid # tids) =
        (tgt, field_results h doc source tgt names) # run_results h source names doc tids" .
  qed
  note g = run_calls_names[of h source names doc tids]
  from apply_copy_totals[of h doc source tids names]
  have t1: "sets_ok (snd (apply_copy h doc source tids names)) +
     sets_fail (snd (apply_copy h doc source tids names)) =
     length (filter (\<lambda>tid. GetElement doc tid \<noteq> None) tids) * length names"
    and t2: "elem_updated (snd (apply_copy h doc source tids names)) +
     elem_skipped (snd (apply_copy h doc source tids names)) = length tids"
    by simp_all
  show ?thesis
    by (intro conjI) (rule a b c e f g d t1 t2)+
qed

text \<open>
  A host whose \<^verbatim>\<open>Set\<close> always raises: the call for \<^verbatim>\<open>Comments\<close> returns the message
  and the target unchanged, the call for \<^verbatim>\<open>Mark\<close> is made after it, the second target
  is visited after the first, and the run makes its four calls, all counted as failed.
\<close>

theorem field_failure_is_contained_witness:
  "try_copy_by_name ex_refusing_host ex_doc ex_source ex_target ''Comments'' =
     ((False, ''The parameter cannot be set.''), ex_target) \<and>
   field_results ex_refusing_host ex_doc ex_source ex_target [''Comments'', ''Mark''] =
     (''Comments'', False, ''The parameter cannot be set.'') #
     field_results ex_refusing_host ex_doc ex_source ex_target [''Mark''] \<and>
   run_results ex_refusing_host ex_source [''Comments'', ''Mark''] ex_doc [2, 3] =
     (ex_target, field_results ex_refusing_host ex_doc ex_source ex_target [''Comments'', ''Mark'']) #
     run_results ex_refusing_host ex_source [''Comments'', ''Mark''] ex_doc [3] \<and>
   map fst (run_calls ex_refusing_host ex_source [''Comments'', ''Mark''] ex_doc [2, 3]) =
     [''Comments'', ''Mark'', ''Comments'', ''Mark''] \<and>
   sets_ok (snd (apply_copy ex_refusing_host ex_doc ex_source [2, 3] [''Comments'', ''Mark''])) = 0 \<and>
   sets_fail (snd (apply_copy ex_refusing_host ex_doc ex_source [2, 3] [''Comments'', ''Mark''])) = 4 \<and>
   elem_updated (snd (apply_copy ex_refusing_host ex_doc ex_source [2, 3] [''Comments'', ''Mark''])) +
     elem_skipped (snd (apply_copy ex_refusing_host ex_doc ex_source [2, 3] [''Comments'', ''Mark''])) = 2"
proof -
  let ?sp = "string_param ''Comments'' False (Some ''A'')"
  let ?tp = "string_param ''Comments'' False (Some [])"
  let ?ta = "[string_param '' ARBEITSEBENE '' False (Some ''L2''),
              string_param ''Mark'' False (Some ''X'')]"
  let ?sa = "[string_param ''Arbeitsebene'' False (Some ''L1'')]"
  let ?m = "''The parameter cannot be set.''"
  let ?ns = "[''Comments'', ''Mark'']"
  have c: "clean (Some ''Comments'') \<noteq> []" by code_simp
  have b: "\<not> is_blocked (clean (Some ''Comments''))" by code_simp
  have s: "LookupParameter ex_refusing_host ex_source (clean (Some ''Comments'')) =
      Some ([], ?sp, ?sa)" by code_simp
  have t: "LookupParameter ex_refusing_host ex_target (clean (Some ''Comments'')) =
      Some ([], ?tp, ?ta)" by code_simp
  have r: "\<not> IsReadOnly ?tp" "StorageType ?sp = StorageType ?tp"
    by (simp_all add: string_param_def)
  have g: "get_param_value ex_refusing_host ?sp = Inr (PyStr ''A'')" by code_simp
  have u: "\<not> (StorageType ?sp = StElementId \<and> unresolved ex_doc (PyStr ''A''))"
    by (simp add: string_param_def)
  have w: "set_param_value ex_refusing_host ?tp (PyStr ''A'') = Inl ?m"
    by code_simp
  have e: "GetElement ex_doc 2 = Some ex_target" by code_simp
  have n: "\<not> list_ex ok_of (field_results ex_refusing_host ex_doc ex_source ex_target ?ns)"
    by code_simp
  have k: "concat (map (\<lambda>tid. ?ns) (filter (\<lambda>tid. GetElement ex_doc tid \<noteq> None) [2, 3])) =
      [''Comments'', ''Mark'', ''Comments'', ''Mark'']"
    by code_simp
  have q: "length (filter (\<lambda>r. \<not> ok_of r) (run_calls ex_refusing_host ex_source ?ns ex_doc [2, 3])) = 4"
    "length (filter ok_of (run_calls ex_refusing_host ex_source ?ns ex_doc [2, 3])) = 0"
    by code_simp+
  note th = field_failure_is_contained[where h = ex_refusing_host and sp = ?sp and msg = ?m
      and doc = ex_doc and tp = ?tp and v = "PyStr ''A''" and pname = "''Comments''"
      and src_elem = ex_source and sb = "[]" and sa = ?sa and dst_elem = ex_target
      and tb = "[]" and ta = ?ta and source = ex_source and tgt = ex_target
      and pn = "''Comments''" and why = ?m and tgt' = ex_target and rest = "[''Mark'']"
      and tid = 2 and tids = "[3]" and names = ?ns]
  note tr = field_failure_is_contained[where h = ex_refusing_host and doc = ex_doc
      and source = ex_source and tids = "[2, 3]" and names = ?ns]
  from th g u w have cb: "copy_body ex_refusing_host ex_doc ?sp ?tp = Inl ?m"
    by blast
  from th c b s t r cb
  have x: "try_copy_by_name ex_refusing_host ex_doc ex_source ex_target ''Comments'' =
     ((False, ?m), ex_target)" by blast
  from th x have y: "field_results ex_refusing_host ex_doc ex_source ex_target ?ns =
     (''Comments'', False, ?m) #
     field_results ex_refusing_host ex_doc ex_source ex_target [''Mark'']" by blast
  from th e n have z: "run_results ex_refusing_host ex_source ?ns ex_doc [2, 3] =
     (ex_target, field_results ex_refusing_host ex_doc ex_source ex_target ?ns) #
     run_results ex_refusing_host ex_source ?ns ex_doc [3]" by blast
  from tr k have l: "map fst (run_calls ex_refusing_host ex_source ?ns ex_doc [2, 3]) =
     [''Comments'', ''Mark'', ''Comments'', ''Mark'']" by metis
  from tr q have o: "sets_ok (snd (apply_copy ex_refusing_host ex_doc ex_source [2, 3] ?ns)) = 0"
    "sets_fail (snd (apply_copy ex_refusing_host ex_doc ex_source [2, 3] ?ns)) = 4"
    by metis+
  from tr have p:
    "elem_updated (snd (apply_copy ex_refusing_host ex_doc ex_source [2, 3] ?ns)) +
     elem_skipped (snd (apply_copy ex_refusing_host ex_doc ex_source [2, 3] ?ns)) = 2"
    by simp
  from x y z l o p show ?thesis by blast
qed

end
